theory Spec2Isabelle
  imports Main "HOL-Library.Word" "HOL-Library.AList"
begin

unbundle bit_operations_syntax

section \<open>Strings and buffers of the runtime\<close>

text \<open>
  A JavaScript string is a sequence of UTF-16 code units, a \<open>Buffer\<close> a sequence of bytes.
  The functions of this section are the runtime's (Node's \<open>String\<close>, \<open>Buffer\<close> and
  \<open>crypto\<close>), which \<open>utils/hmac\<close> calls; the functions of the repository start in
  the next section.
\<close>

type_synonym byte = "8 word"
type_synonym code_unit = "16 word"
type_synonym jsstring = "code_unit list"

text \<open>An ASCII literal as a JavaScript string.\<close>

definition js :: "string \<Rightarrow> jsstring" where
  "js s = map (\<lambda>c. of_nat (of_char c)) s"

abbreviation PIPE :: code_unit where "PIPE \<equiv> 0x7C"
abbreviation DOT :: code_unit where "DOT \<equiv> 0x2E"
abbreviation EQUALS :: code_unit where "EQUALS \<equiv> 0x3D"
abbreviation PLUS :: code_unit where "PLUS \<equiv> 0x2B"
abbreviation SLASH :: code_unit where "SLASH \<equiv> 0x2F"
abbreviation MINUS :: code_unit where "MINUS \<equiv> 0x2D"
abbreviation UNDERSCORE :: code_unit where "UNDERSCORE \<equiv> 0x5F"

subsection \<open>\<open>String.prototype.split\<close> and \<open>replace\<close> with a one-character pattern\<close>

fun split_from :: "'a \<Rightarrow> 'a list \<Rightarrow> 'a list \<Rightarrow> 'a list list" where
  "split_from sep cur [] = [cur]"
| "split_from sep cur (x # xs) =
     (if x = sep then cur # split_from sep [] xs else split_from sep (cur @ [x]) xs)"

definition String_split :: "jsstring \<Rightarrow> code_unit \<Rightarrow> jsstring list" where
  "String_split s sep = split_from sep [] s"

text \<open>\<open>s.replace(/c/g, r)\<close>: every occurrence of the character is replaced.\<close>

definition String_replace :: "jsstring \<Rightarrow> code_unit \<Rightarrow> jsstring \<Rightarrow> jsstring" where
  "String_replace s c r = concat (map (\<lambda>x. if x = c then r else [x]) s)"

definition String_repeat :: "jsstring \<Rightarrow> nat \<Rightarrow> jsstring" where
  "String_repeat s n = concat (replicate n s)"

subsection \<open>UTF-8: \<open>Buffer.from(str)\<close> and \<open>buf.toString('utf-8')\<close>\<close>

definition is_high_surrogate :: "code_unit \<Rightarrow> bool" where
  "is_high_surrogate u \<longleftrightarrow> 0xD800 \<le> unat u \<and> unat u \<le> 0xDBFF"

definition is_low_surrogate :: "code_unit \<Rightarrow> bool" where
  "is_low_surrogate u \<longleftrightarrow> 0xDC00 \<le> unat u \<and> unat u \<le> 0xDFFF"

definition utf8_of_code_point :: "nat \<Rightarrow> byte list" where
  "utf8_of_code_point c =
     (if c < 0x80 then [of_nat c]
      else if c < 0x800 then [of_nat (0xC0 + c div 64), of_nat (0x80 + c mod 64)]
      else if c < 0x10000 then
        [of_nat (0xE0 + c div 4096), of_nat (0x80 + c div 64 mod 64), of_nat (0x80 + c mod 64)]
      else
        [of_nat (0xF0 + c div 262144), of_nat (0x80 + c div 4096 mod 64),
         of_nat (0x80 + c div 64 mod 64), of_nat (0x80 + c mod 64)])"

text \<open>A code unit that is not part of a surrogate pair; a lone surrogate is written as U+FFFD.\<close>

definition single_code_point :: "code_unit \<Rightarrow> nat" where
  "single_code_point u =
     (if is_high_surrogate u \<or> is_low_surrogate u then 0xFFFD else unat u)"

fun Buffer_from_utf8 :: "jsstring \<Rightarrow> byte list" where
  "Buffer_from_utf8 [] = []"
| "Buffer_from_utf8 [u] = utf8_of_code_point (single_code_point u)"
| "Buffer_from_utf8 (u # l # rest) =
     (if is_high_surrogate u \<and> is_low_surrogate l
      then utf8_of_code_point (0x10000 + (unat u - 0xD800) * 1024 + (unat l - 0xDC00))
             @ Buffer_from_utf8 rest
      else utf8_of_code_point (single_code_point u) @ Buffer_from_utf8 (l # rest))"

text \<open>
  Decoding never fails: an ill-formed sequence becomes U+FFFD and decoding goes on with the
  byte that broke it. The state is the code point so far, the number of continuation bytes
  still needed, and the range allowed for the next byte.
\<close>

type_synonym utf8_state = "nat \<times> nat \<times> nat \<times> nat"

definition utf8_init :: utf8_state where
  "utf8_init = (0, 0, 0x80, 0xBF)"

definition utf8_lead :: "nat \<Rightarrow> utf8_state \<times> nat list" where
  "utf8_lead b =
     (if b < 0x80 then (utf8_init, [b])
      else if 0xC2 \<le> b \<and> b \<le> 0xDF then ((b - 0xC0, 1, 0x80, 0xBF), [])
      else if 0xE0 \<le> b \<and> b \<le> 0xEF then
        ((b - 0xE0, 2, if b = 0xE0 then 0xA0 else 0x80, if b = 0xED then 0x9F else 0xBF), [])
      else if 0xF0 \<le> b \<and> b \<le> 0xF4 then
        ((b - 0xF0, 3, if b = 0xF0 then 0x90 else 0x80, if b = 0xF4 then 0x8F else 0xBF), [])
      else (utf8_init, [0xFFFD]))"

definition utf8_step :: "utf8_state \<Rightarrow> nat \<Rightarrow> utf8_state \<times> nat list" where
  "utf8_step st b =
     (case st of (cp, needed, lo, hi) \<Rightarrow>
        if needed = 0 then utf8_lead b
        else if lo \<le> b \<and> b \<le> hi then
          (if needed = 1 then (utf8_init, [cp * 64 + (b - 0x80)])
           else ((cp * 64 + (b - 0x80), needed - 1, 0x80, 0xBF), []))
        else (case utf8_lead b of (st', out) \<Rightarrow> (st', 0xFFFD # out)))"

fun utf8_run :: "utf8_state \<Rightarrow> byte list \<Rightarrow> nat list" where
  "utf8_run st [] = (case st of (cp, needed, lo, hi) \<Rightarrow> if needed = 0 then [] else [0xFFFD])"
| "utf8_run st (b # bs) = (case utf8_step st (unat b) of (st', out) \<Rightarrow> out @ utf8_run st' bs)"

definition utf16_of_code_point :: "nat \<Rightarrow> jsstring" where
  "utf16_of_code_point c =
     (if c < 0x10000 then [of_nat c]
      else [of_nat (0xD800 + (c - 0x10000) div 1024), of_nat (0xDC00 + (c - 0x10000) mod 1024)])"

definition Buffer_toString_utf8 :: "byte list \<Rightarrow> jsstring" where
  "Buffer_toString_utf8 bs = concat (map utf16_of_code_point (utf8_run utf8_init bs))"

subsection \<open>Base64: \<open>buf.toString('base64')\<close> and \<open>Buffer.from(str, 'base64')\<close>\<close>

definition b64_char :: "nat \<Rightarrow> code_unit" where
  "b64_char k =
     (if k < 26 then of_nat (65 + k)
      else if k < 52 then of_nat (97 + (k - 26))
      else if k < 62 then of_nat (48 + (k - 52))
      else if k = 62 then PLUS else SLASH)"

fun Buffer_toString_base64 :: "byte list \<Rightarrow> jsstring" where
  "Buffer_toString_base64 (a # b # c # rest) =
     [b64_char (unat a div 4), b64_char (unat a mod 4 * 16 + unat b div 16),
      b64_char (unat b mod 16 * 4 + unat c div 64), b64_char (unat c mod 64)]
     @ Buffer_toString_base64 rest"
| "Buffer_toString_base64 [a, b] =
     [b64_char (unat a div 4), b64_char (unat a mod 4 * 16 + unat b div 16),
      b64_char (unat b mod 16 * 4), EQUALS]"
| "Buffer_toString_base64 [a] =
     [b64_char (unat a div 4), b64_char (unat a mod 4 * 16), EQUALS, EQUALS]"
| "Buffer_toString_base64 [] = []"

text \<open>
  The decoder is lenient and has no error result: it accepts both alphabets, skips every
  character outside them, and stops at the first \<open>=\<close>. A last group of two or three
  characters gives one or two bytes; a single left-over character gives none. The decoder
  reads each code unit of the string as a byte, its low eight bits: U+0141 is read as
  \<open>A\<close>, and U+013D as \<open>=\<close>.
\<close>

definition low_byte :: "code_unit \<Rightarrow> byte" where
  "low_byte c = ucast c"

definition unbase64 :: "byte \<Rightarrow> nat option" where
  "unbase64 c =
     (let n = unat c in
      if 65 \<le> n \<and> n \<le> 90 then Some (n - 65)
      else if 97 \<le> n \<and> n \<le> 122 then Some (n - 71)
      else if 48 \<le> n \<and> n \<le> 57 then Some (n + 4)
      else if c = 0x2B \<or> c = 0x2D then Some 62
      else if c = 0x2F \<or> c = 0x5F then Some 63
      else None)"

fun bytes_of_sextets :: "nat list \<Rightarrow> byte list" where
  "bytes_of_sextets (s0 # s1 # s2 # s3 # rest) =
     [of_nat (s0 * 4 + s1 div 16), of_nat (s1 mod 16 * 16 + s2 div 4), of_nat (s2 mod 4 * 64 + s3)]
     @ bytes_of_sextets rest"
| "bytes_of_sextets [s0, s1, s2] = [of_nat (s0 * 4 + s1 div 16), of_nat (s1 mod 16 * 16 + s2 div 4)]"
| "bytes_of_sextets [s0, s1] = [of_nat (s0 * 4 + s1 div 16)]"
| "bytes_of_sextets [s0] = []"
| "bytes_of_sextets [] = []"

definition Buffer_from_base64 :: "jsstring \<Rightarrow> byte list" where
  "Buffer_from_base64 s =
     bytes_of_sextets
       (List.map_filter unbase64 (takeWhile (\<lambda>c. c \<noteq> 0x3D) (map low_byte s)))"

subsection \<open>SHA-256 and HMAC: \<open>crypto.createHmac('sha256', key).update(msg).digest('hex')\<close>\<close>

definition rotr :: "nat \<Rightarrow> 32 word \<Rightarrow> 32 word" where
  "rotr n x = drop_bit n x OR push_bit (32 - n) x"

text \<open>The round constants and the initial hash value of SHA-256, in decimal.\<close>

definition sha_K :: "32 word list" where
  "sha_K =
    [
     1116352408, 1899447441, 3049323471, 3921009573, 961987163, 1508970993,
     2453635748, 2870763221, 3624381080, 310598401, 607225278, 1426881987,
     1925078388, 2162078206, 2614888103, 3248222580, 3835390401, 4022224774,
     264347078, 604807628, 770255983, 1249150122, 1555081692, 1996064986,
     2554220882, 2821834349, 2952996808, 3210313671, 3336571891, 3584528711,
     113926993, 338241895, 666307205, 773529912, 1294757372, 1396182291,
     1695183700, 1986661051, 2177026350, 2456956037, 2730485921, 2820302411,
     3259730800, 3345764771, 3516065817, 3600352804, 4094571909, 275423344,
     430227734, 506948616, 659060556, 883997877, 958139571, 1322822218,
     1537002063, 1747873779, 1955562222, 2024104815, 2227730452, 2361852424,
     2428436474, 2756734187, 3204031479, 3329325298]"

definition sha_H0 :: "32 word list" where
  "sha_H0 =
    [
     1779033703, 3144134277, 1013904242, 2773480762, 1359893119, 2600822924,
     528734635, 1541459225]"

text \<open>The \<open>k\<close> big-endian bytes of a number, and the 32-bit words of a byte sequence.\<close>

fun be_bytes :: "nat \<Rightarrow> nat \<Rightarrow> byte list" where
  "be_bytes 0 n = []"
| "be_bytes (Suc k) n = be_bytes k (n div 256) @ [of_nat (n mod 256)]"

fun be_words :: "byte list \<Rightarrow> 32 word list" where
  "be_words (a # b # c # d # rest) =
     (push_bit 24 (ucast a) OR push_bit 16 (ucast b) OR push_bit 8 (ucast c) OR ucast d)
     # be_words rest"
| "be_words _ = []"

definition sha_pad :: "byte list \<Rightarrow> byte list" where
  "sha_pad m =
     m @ [0x80] @ replicate ((119 - length m mod 64) mod 64) 0 @ be_bytes 8 (8 * length m)"

text \<open>The message schedule, newest word first.\<close>

fun sha_schedule :: "nat \<Rightarrow> 32 word list \<Rightarrow> 32 word list" where
  "sha_schedule 0 w = w"
| "sha_schedule (Suc n) w =
     (let w2 = w ! 1; w7 = w ! 6; w15 = w ! 14; w16 = w ! 15;
          s0 = rotr 7 w15 XOR rotr 18 w15 XOR drop_bit 3 w15;
          s1 = rotr 17 w2 XOR rotr 19 w2 XOR drop_bit 10 w2
      in sha_schedule n ((w16 + s0 + w7 + s1) # w))"

type_synonym sha_regs =
  "32 word \<times> 32 word \<times> 32 word \<times> 32 word \<times> 32 word \<times> 32 word \<times> 32 word \<times> 32 word"

definition sha_round :: "32 word \<times> 32 word \<Rightarrow> sha_regs \<Rightarrow> sha_regs" where
  "sha_round kw r =
     (case r of (a, b, c, d, e, f, g, h) \<Rightarrow>
        let S1 = rotr 6 e XOR rotr 11 e XOR rotr 25 e;
            ch = (e AND f) XOR (NOT e AND g);
            t1 = h + S1 + ch + fst kw + snd kw;
            S0 = rotr 2 a XOR rotr 13 a XOR rotr 22 a;
            maj = (a AND b) XOR (a AND c) XOR (b AND c);
            t2 = S0 + maj
        in (t1 + t2, a, b, c, d + t1, e, f, g))"

definition sha_compress :: "32 word list \<Rightarrow> byte list \<Rightarrow> 32 word list" where
  "sha_compress hs block =
     (let w = rev (sha_schedule 48 (rev (be_words block)));
          r0 = (hs ! 0, hs ! 1, hs ! 2, hs ! 3, hs ! 4, hs ! 5, hs ! 6, hs ! 7)
      in case fold sha_round (zip sha_K w) r0 of (a, b, c, d, e, f, g, h) \<Rightarrow>
           map2 (+) hs [a, b, c, d, e, f, g, h])"

fun sha_blocks :: "nat \<Rightarrow> 32 word list \<Rightarrow> byte list \<Rightarrow> 32 word list" where
  "sha_blocks 0 hs m = hs"
| "sha_blocks (Suc n) hs m = sha_blocks n (sha_compress hs (take 64 m)) (drop 64 m)"

definition sha256 :: "byte list \<Rightarrow> byte list" where
  "sha256 m =
     (let p = sha_pad m
      in concat (map (\<lambda>w. be_bytes 4 (unat w)) (sha_blocks (length p div 64) sha_H0 p)))"

definition hmac_key_block :: "byte list \<Rightarrow> byte list" where
  "hmac_key_block key =
     (let k = (if length key > 64 then sha256 key else key) in k @ replicate (64 - length k) 0)"

definition hmac_sha256 :: "byte list \<Rightarrow> byte list \<Rightarrow> byte list" where
  "hmac_sha256 key msg =
     (let k = hmac_key_block key
      in sha256 (map (\<lambda>b. b XOR 0x5C) k @ sha256 (map (\<lambda>b. b XOR 0x36) k @ msg)))"

definition hex_digit :: "nat \<Rightarrow> code_unit" where
  "hex_digit d = (if d < 10 then of_nat (48 + d) else of_nat (87 + d))"

definition hex_of_bytes :: "byte list \<Rightarrow> jsstring" where
  "hex_of_bytes bs = concat (map (\<lambda>b. [hex_digit (unat b div 16), hex_digit (unat b mod 16)]) bs)"


subsection \<open>\<open>Date\<close>\<close>

text \<open>
  \<open>new Date(text).getTime()\<close> is the instant in milliseconds since the epoch, or \<open>NaN\<close>
  (here \<open>None\<close>) when the text is no date. The parser is the runtime's and is a parameter of
  every function that builds a \<open>Date\<close> from text; \<open>new Date()\<close> is the parameter \<open>now\<close>.
\<close>

type_synonym date_parser = "jsstring \<Rightarrow> int option"

text \<open>\<open>new Date(text) <= now\<close>: a comparison with \<open>NaN\<close> is false.\<close>

definition Date_le :: "int option \<Rightarrow> int \<Rightarrow> bool" where
  "Date_le d now = (case d of None \<Rightarrow> False | Some t \<Rightarrow> t \<le> now)"

text \<open>A parser for the examples: it knows two timestamps in the format of \<open>toISOString\<close>.\<close>

definition Date_parse_sample :: date_parser where
  "Date_parse_sample s =
     (if s = js ''2030-01-01T00:00:00.000Z'' then Some 1893456000000
      else if s = js ''2020-01-01T00:00:00.000Z'' then Some 1577836800000
      else None)"

section \<open>The token codec: \<open>utils/hmac\<close>\<close>

text \<open>
  The module that \<open>activationService\<close> imports as \<open>../utils/hmac\<close>; its text stands
  in \<open>src/middleware/auth.ts\<close>, after the activation middleware.
\<close>

text \<open>What a \<open>try\<close> block catches.\<close>

datatype js_error = Thrown

definition base64UrlEncode :: "jsstring \<Rightarrow> jsstring" where
  "base64UrlEncode str =
     String_replace
       (String_replace
          (String_replace (Buffer_toString_base64 (Buffer_from_utf8 str)) PLUS [MINUS])
          SLASH [UNDERSCORE])
       EQUALS []"

text \<open>
  The result is a sum so that the \<open>catch\<close> of \<open>verifyActivationKey\<close> is a branch of the
  model; none of the runtime's functions called here throws on a string.
\<close>

definition base64UrlDecode :: "jsstring \<Rightarrow> js_error + jsstring" where
  "base64UrlDecode str =
     (let padding = String_repeat [EQUALS] ((4 - length str mod 4) mod 4);
          base64 = String_replace (String_replace str MINUS [PLUS]) UNDERSCORE [SLASH] @ padding
      in Inr (Buffer_toString_utf8 (Buffer_from_base64 base64)))"

definition generateSignature :: "jsstring \<Rightarrow> jsstring \<Rightarrow> jsstring" where
  "generateSignature payload secret =
     hex_of_bytes (hmac_sha256 (Buffer_from_utf8 secret) (Buffer_from_utf8 payload))"

text \<open>The template literal \<open>`${identifier}|${expiry}|${plan}|${nonce}`\<close>.\<close>

definition payload_text :: "jsstring \<Rightarrow> jsstring \<Rightarrow> jsstring \<Rightarrow> jsstring \<Rightarrow> jsstring" where
  "payload_text identifier expiry plan nonce =
     identifier @ [PIPE] @ expiry @ [PIPE] @ plan @ [PIPE] @ nonce"

definition createActivationKey ::
  "jsstring \<Rightarrow> jsstring \<Rightarrow> jsstring \<Rightarrow> jsstring \<Rightarrow> jsstring \<Rightarrow> jsstring" where
  "createActivationKey identifier expiry plan nonce secret =
     (let payload = payload_text identifier expiry plan nonce;
          signature = generateSignature payload secret;
          fullKey = payload @ [DOT] @ signature
      in base64UrlEncode fullKey)"

record ActivationPayload =
  "identifier" :: jsstring
  expiry :: jsstring
  plan :: jsstring
  nonce :: jsstring

record VerificationResult =
  valid :: bool
  payload :: "ActivationPayload option"
  reason :: "string option"

definition invalid :: "string \<Rightarrow> VerificationResult" where
  "invalid r = \<lparr>valid = False, payload = None, reason = Some r\<rparr>"

definition valid_with ::
  "jsstring \<Rightarrow> jsstring \<Rightarrow> jsstring \<Rightarrow> jsstring \<Rightarrow> VerificationResult" where
  "valid_with i e p n =
     \<lparr>valid = True,
      payload = Some \<lparr>identifier = i, expiry = e, plan = p, nonce = n\<rparr>,
      reason = None\<rparr>"

text \<open>
  The calls of \<open>console.log\<close> have no part in the result and are left out. The
  local constants carry a prime where a field of a record has their name.
\<close>

definition verifyActivationKey ::
  "date_parser \<Rightarrow> int \<Rightarrow> jsstring \<Rightarrow> jsstring \<Rightarrow> VerificationResult" where
  "verifyActivationKey Date_parse now key secret =
     (case base64UrlDecode key of
        Inl error \<Rightarrow> invalid ''Key decoding failed''
      | Inr decoded \<Rightarrow>
          let parts = String_split decoded PIPE in
          if length parts \<noteq> 4 then invalid ''Invalid payload format''
          else
            let identifier' = parts ! 0; expiry' = parts ! 1; plan' = parts ! 2;
                nonceAndSig = parts ! 3;
                lastParts = String_split nonceAndSig DOT
            in
            if length lastParts \<noteq> 2 then invalid ''Invalid nonce/signature format''
            else
              let nonce' = lastParts ! 0; signature = lastParts ! 1;
                  payload' = payload_text identifier' expiry' plan' nonce';
                  expectedSignature = generateSignature payload' secret
              in
              if signature \<noteq> expectedSignature then invalid ''Invalid signature''
              else
                (case Date_parse expiry' of
                   None \<Rightarrow> invalid ''Invalid expiry date format''
                 | Some expiryDate \<Rightarrow>
                     if expiryDate \<le> now then invalid ''Key has expired''
                     else valid_with identifier' expiry' plan' nonce'))"

section \<open>The session registry: \<open>services/activationService\<close>\<close>

record ActivationSession =
  session_identifier :: jsstring
  session_plan :: jsstring
  session_expiry :: jsstring
  activatedAt :: int

text \<open>
  The object: its \<open>Map\<close>, as the list of its entries in insertion order, and its secret.
  \<open>set\<close> is \<open>AList.update\<close> (in place for a key that is there, at the end for a new
  one), \<open>get\<close> is \<open>map_of\<close> and \<open>delete\<close> is \<open>AList.delete\<close>.
\<close>

record ActivationService =
  activeSessions :: "(jsstring \<times> ActivationSession) list"
  secret :: jsstring

definition new_ActivationService :: "jsstring \<Rightarrow> ActivationService" where
  "new_ActivationService s = \<lparr>activeSessions = [], secret = s\<rparr>"

record ActivationOutcome =
  ok :: bool
  out_identifier :: "jsstring option"
  out_plan :: "jsstring option"
  out_expiry :: "jsstring option"
  out_reason :: "string option"

text \<open>
  \<open>activate\<close> reads the clock twice: in \<open>verifyActivationKey\<close> (\<open>now\<close>) and for
  \<open>activatedAt\<close> (\<open>now'\<close>).
\<close>

definition activate ::
  "date_parser \<Rightarrow> int \<Rightarrow> int \<Rightarrow> jsstring \<Rightarrow> ActivationService
     \<Rightarrow> ActivationOutcome \<times> ActivationService" where
  "activate Date_parse now now' key svc =
     (let verification = verifyActivationKey Date_parse now key (secret svc) in
      case (valid verification, payload verification) of
        (True, Some p) \<Rightarrow>
          (\<lparr>ok = True, out_identifier = Some (identifier p), out_plan = Some (plan p),
            out_expiry = Some (expiry p), out_reason = None\<rparr>,
           svc\<lparr>activeSessions :=
             AList.update (identifier p)
               \<lparr>session_identifier = identifier p, session_plan = plan p,
                session_expiry = expiry p, activatedAt = now'\<rparr>
               (activeSessions svc)\<rparr>)
      | _ \<Rightarrow>
          (\<lparr>ok = False, out_identifier = None, out_plan = None, out_expiry = None,
            out_reason = reason verification\<rparr>, svc))"

definition isActive ::
  "date_parser \<Rightarrow> int \<Rightarrow> jsstring \<Rightarrow> ActivationService \<Rightarrow> bool \<times> ActivationService" where
  "isActive Date_parse now ident svc =
     (case map_of (activeSessions svc) ident of
        None \<Rightarrow> (False, svc)
      | Some session \<Rightarrow>
          if Date_le (Date_parse (session_expiry session)) now
          then (False, svc\<lparr>activeSessions := AList.delete ident (activeSessions svc)\<rparr>)
          else (True, svc))"

definition getSession :: "jsstring \<Rightarrow> ActivationService \<Rightarrow> ActivationSession option" where
  "getSession ident svc = map_of (activeSessions svc) ident"

text \<open>The loop over \<open>entries()\<close>: each entry is visited once and deleted when it has expired.\<close>

fun clean_loop ::
  "date_parser \<Rightarrow> int \<Rightarrow> (jsstring \<times> ActivationSession) list
     \<Rightarrow> (jsstring \<times> ActivationSession) list \<Rightarrow> (jsstring \<times> ActivationSession) list" where
  "clean_loop Date_parse now [] m = m"
| "clean_loop Date_parse now ((ident, session) # rest) m =
     clean_loop Date_parse now rest
       (if Date_le (Date_parse (session_expiry session)) now then AList.delete ident m else m)"

definition cleanExpiredSessions :: "date_parser \<Rightarrow> int \<Rightarrow> ActivationService \<Rightarrow> ActivationService" where
  "cleanExpiredSessions Date_parse now svc =
     svc\<lparr>activeSessions := clean_loop Date_parse now (activeSessions svc) (activeSessions svc)\<rparr>"

text \<open>The states of the object: built by the constructor, then changed by its methods.\<close>

inductive reachable :: "ActivationService \<Rightarrow> bool" where
  r_new: "reachable (new_ActivationService s)"
| r_activate: "reachable svc \<Longrightarrow> reachable (snd (activate Date_parse now now' key svc))"
| r_isActive: "reachable svc \<Longrightarrow> reachable (snd (isActive Date_parse now ident svc))"
| r_clean: "reachable svc \<Longrightarrow> reachable (cleanExpiredSessions Date_parse now svc)"

text \<open>
  Every session is stored under its own identifier; the invariant of the reachable states.
\<close>

definition keyed :: "ActivationService \<Rightarrow> bool" where
  "keyed svc = list_all (\<lambda>(k, s). session_identifier s = k) (activeSessions svc)"

text \<open>A registry for the examples: one session that expired in 2020, one that lasts until 2030.\<close>

definition sample_sessions :: ActivationService where
  "sample_sessions =
     \<lparr>activeSessions =
        [(js ''u1'', \<lparr>session_identifier = js ''u1'', session_plan = js ''basic'',
                     session_expiry = js ''2020-01-01T00:00:00.000Z'',
                     activatedAt = 1570000000000\<rparr>),
         (js ''u2'', \<lparr>session_identifier = js ''u2'', session_plan = js ''premium'',
                     session_expiry = js ''2030-01-01T00:00:00.000Z'',
                     activatedAt = 1690000000000\<rparr>)],
      secret = js ''s3cret''\<rparr>"

section \<open>Notions used in the statements\<close>

text \<open>
  A string is well formed when every surrogate code unit is part of a pair: a high surrogate
  followed by a low one. These are the strings that UTF-8 can carry unchanged.
\<close>

fun well_formed :: "jsstring \<Rightarrow> bool" where
  "well_formed [] = True"
| "well_formed [u] = (\<not> is_high_surrogate u \<and> \<not> is_low_surrogate u)"
| "well_formed (u # l # rest) =
     (if is_high_surrogate u then is_low_surrogate l \<and> well_formed rest
      else \<not> is_low_surrogate u \<and> well_formed (l # rest))"

text \<open>The six-bit groups of a byte sequence, and the two alphabets' translation of characters.\<close>

fun sextets :: "byte list \<Rightarrow> nat list" where
  "sextets (a # b # c # rest) =
     [unat a div 4, unat a mod 4 * 16 + unat b div 16, unat b mod 16 * 4 + unat c div 64,
      unat c mod 64] @ sextets rest"
| "sextets [a, b] = [unat a div 4, unat a mod 4 * 16 + unat b div 16, unat b mod 16 * 4]"
| "sextets [a] = [unat a div 4, unat a mod 4 * 16]"
| "sextets [] = []"

definition to_url :: "code_unit \<Rightarrow> code_unit" where
  "to_url c = (if (if c = PLUS then MINUS else c) = SLASH then UNDERSCORE
               else (if c = PLUS then MINUS else c))"

definition from_url :: "code_unit \<Rightarrow> code_unit" where
  "from_url c = (if (if c = MINUS then PLUS else c) = UNDERSCORE then SLASH
                 else (if c = MINUS then PLUS else c))"

text \<open>
  What the spec calls a validly encoded token: characters of the URL-safe alphabet only, no
  padding, and a length that a padding-free encoding can have.
\<close>

definition url_alphabet :: "code_unit \<Rightarrow> bool" where
  "url_alphabet c \<longleftrightarrow>
     unat c < 128 \<and>
     (case unbase64 (low_byte c) of None \<Rightarrow> False | Some k \<Rightarrow> c \<noteq> PLUS \<and> c \<noteq> SLASH)"

definition is_base64url :: "jsstring \<Rightarrow> bool" where
  "is_base64url s \<longleftrightarrow> list_all url_alphabet s \<and> length s mod 4 \<noteq> 1"

text \<open>The reasons that \<open>verifyActivationKey\<close> gives, as the source writes them.\<close>

definition invalid_reasons :: "string list" where
  "invalid_reasons =
     [''Key decoding failed'', ''Invalid payload format'', ''Invalid nonce/signature format'',
      ''Invalid signature'', ''Invalid expiry date format'', ''Key has expired'']"

section \<open>The runtime's functions\<close>

subsection \<open>split\<close>

lemma split_from_no_sep: "sep \<notin> set a \<Longrightarrow> split_from sep cur a = [cur @ a]"
  by (induction a arbitrary: cur) auto

lemma split_from_first:
  "sep \<notin> set a \<Longrightarrow> split_from sep cur (a @ sep # b) = (cur @ a) # split_from sep [] b"
  by (induction a arbitrary: cur) auto

lemma length_split_from: "length (split_from sep cur s) = Suc (count_list s sep)"
  by (induction s arbitrary: cur) auto

lemma split_from_nonempty: "split_from sep cur s \<noteq> []"
  by (induction s arbitrary: cur) auto

subsection \<open>bytes\<close>

lemma unat_byte_of_nat: "n < 256 \<Longrightarrow> unat (of_nat n :: 8 word) = n"
  by (simp add: unat_of_nat)

lemma unat_unit_of_nat: "n < 65536 \<Longrightarrow> unat (of_nat n :: 16 word) = n"
  by (simp add: unat_of_nat)

lemma unat_byte_bound: "unat (b :: 8 word) < 256"
  using unsigned_less [of b, where 'a = nat] by simp

lemma unat_unit_bound: "unat (u :: 16 word) < 65536"
  using unsigned_less [of u, where 'a = nat] by simp

subsection \<open>base64\<close>



lemma b64_table:
  "list_all (\<lambda>k. unbase64 (low_byte (b64_char k)) = Some k \<and> low_byte (b64_char k) \<noteq> 0x3D
      \<and> b64_char k \<noteq> EQUALS \<and> b64_char k \<noteq> MINUS \<and> b64_char k \<noteq> UNDERSCORE) [0..<64]"
  by code_simp

lemma unbase64_b64_char: "k < 64 \<Longrightarrow> unbase64 (low_byte (b64_char k)) = Some k"
  using b64_table by (simp add: list_all_iff)

lemma b64_char_not_padding: "k < 64 \<Longrightarrow> low_byte (b64_char k) \<noteq> 0x3D"
  using b64_table by (simp add: list_all_iff)

lemma b64_char_not_special:
  "k < 64 \<Longrightarrow> b64_char k \<noteq> EQUALS \<and> b64_char k \<noteq> MINUS \<and> b64_char k \<noteq> UNDERSCORE"
  using b64_table by (simp add: list_all_iff)



lemma div_mult_add_small: "q < n \<Longrightarrow> (y * n + q) div n = (y::nat)"
  by simp

lemma mod_mult_add_small: "q < n \<Longrightarrow> (y * n + q) mod n = (q::nat)"
  by simp

lemma byte_div16: "unat (b :: 8 word) div 16 < 16"
  using unat_byte_bound [of b] by (simp add: less_mult_imp_div_less)

lemma byte_div64: "unat (b :: 8 word) div 64 < 4"
  using unat_byte_bound [of b] by (simp add: less_mult_imp_div_less)

lemma byte_div4: "unat (b :: 8 word) div 4 < 64"
  using unat_byte_bound [of b] by (simp add: less_mult_imp_div_less)

lemma sextet_bounds:
  "unat (a :: 8 word) div 4 < 64"
  "unat (a :: 8 word) mod 4 * 16 + unat (b :: 8 word) div 16 < 64"
  "unat b mod 16 * 4 + unat (c :: 8 word) div 64 < 64"
  "unat c mod 64 < 64"
  "unat b mod 16 * 4 < 64"
  "unat a mod 4 * 16 < 64"
proof -
  have "unat a mod 4 < 4" "unat b mod 16 < 16" by simp_all
  with byte_div16 [of b] byte_div64 [of c] byte_div4 [of a]
  show "unat a div 4 < 64"
    "unat a mod 4 * 16 + unat b div 16 < 64"
    "unat b mod 16 * 4 + unat c div 64 < 64"
    "unat c mod 64 < 64"
    "unat b mod 16 * 4 < 64"
    "unat a mod 4 * 16 < 64"
    by linarith+
qed

lemma sextets_bound: "k \<in> set (sextets bs) \<Longrightarrow> k < 64"
proof (induction bs arbitrary: k rule: sextets.induct)
  case (1 a b c rest)
  from "1.prems" consider "k = unat a div 4" | "k = unat a mod 4 * 16 + unat b div 16"
    | "k = unat b mod 16 * 4 + unat c div 64" | "k = unat c mod 64" | "k \<in> set (sextets rest)"
    by auto
  then show ?case
    using sextet_bounds(1-4) "1.IH" by cases simp_all
next
  case (2 a b)
  from "2.prems" consider "k = unat a div 4" | "k = unat a mod 4 * 16 + unat b div 16"
    | "k = unat b mod 16 * 4"
    by auto
  then show ?case
    using sextet_bounds(1,2,5) by cases simp_all
next
  case (3 a)
  from "3.prems" consider "k = unat a div 4" | "k = unat a mod 4 * 16"
    by auto
  then show ?case
    using sextet_bounds(1,6) by cases simp_all
qed simp

lemma sextet_join:
  "unat (a :: 8 word) div 4 * 4 + (unat a mod 4 * 16 + unat (b :: 8 word) div 16) div 16 = unat a"
  "(unat a mod 4 * 16 + unat b div 16) mod 16 * 16 + (unat b mod 16 * 4 + unat (c :: 8 word) div 64) div 4
     = unat b"
  "(unat b mod 16 * 4 + unat c div 64) mod 4 * 64 + unat c mod 64 = unat c"
  "(unat a mod 4 * 16 + unat b div 16) mod 16 * 16 + (unat b mod 16 * 4) div 4 = unat b"
  "unat a div 4 * 4 + (unat a mod 4 * 16) div 16 = unat a"
  by (simp_all add: div_mult_add_small mod_mult_add_small byte_div16 byte_div64)

lemma byte_of_unat: "of_nat (unat (a :: 8 word)) = a"
  by simp

lemma bytes_of_sextets_sextets: "bytes_of_sextets (sextets bs) = bs"
proof (induction bs rule: sextets.induct)
  case (1 a b c rest)
  then show ?case
    by (simp only: sextets.simps bytes_of_sextets.simps append.simps sextet_join byte_of_unat)
next
  case (2 a b)
  show ?case
    by (simp only: sextets.simps bytes_of_sextets.simps append.simps sextet_join byte_of_unat)
next
  case (3 a)
  show ?case
    by (simp only: sextets.simps bytes_of_sextets.simps append.simps sextet_join byte_of_unat)
qed simp

lemma toString_base64_sextets:
  "\<exists>n. Buffer_toString_base64 bs = map b64_char (sextets bs) @ replicate n EQUALS"
proof (induction bs rule: sextets.induct)
  case (1 a b c rest)
  then show ?case by auto
next
  case (2 a b)
  show ?case by (rule exI [of _ 1]) simp
next
  case (3 a)
  show ?case by (rule exI [of _ 2]) (simp add: numeral_2_eq_2)
next
  case 4
  show ?case by simp
qed

lemma String_replace_single:
  "String_replace s c [r] = map (\<lambda>x. if x = c then r else x) s"
  by (induction s) (auto simp: String_replace_def)

lemma String_replace_empty: "String_replace s c [] = filter (\<lambda>x. x \<noteq> c) s"
  by (induction s) (auto simp: String_replace_def)


lemma String_repeat_single: "String_repeat [c] n = replicate n c"
  by (induction n) (simp_all add: String_repeat_def)

lemma map_filter_unbase64:
  "\<forall>k \<in> set ss. k < 64 \<Longrightarrow>
   List.map_filter unbase64 (map low_byte (map b64_char ss)) = ss"
  by (induction ss) (simp_all add: List.map_filter_simps unbase64_b64_char)

lemma low_byte_EQUALS: "low_byte EQUALS = 0x3D"
  by (simp add: low_byte_def)

lemma takeWhile_before_padding:
  "\<forall>x \<in> set xs. low_byte x \<noteq> 0x3D \<Longrightarrow>
   takeWhile (\<lambda>c. c \<noteq> 0x3D) (map low_byte (xs @ replicate n EQUALS)) = map low_byte xs"
proof (induction xs)
  case Nil
  show ?case by (cases n) (simp_all add: low_byte_EQUALS)
next
  case (Cons x xs)
  then show ?case by simp
qed

lemma from_url_to_url: "c \<noteq> MINUS \<Longrightarrow> c \<noteq> UNDERSCORE \<Longrightarrow> from_url (to_url c) = c"
  by (simp add: from_url_def to_url_def)

lemma to_url_not_equals: "c \<noteq> EQUALS \<Longrightarrow> to_url c \<noteq> EQUALS"
  by (simp add: to_url_def)

lemma to_url_equals: "to_url EQUALS = EQUALS"
  by (simp add: to_url_def)

lemma url_encode_chars:
  "String_replace (String_replace (String_replace s PLUS [MINUS]) SLASH [UNDERSCORE]) EQUALS []
     = filter (\<lambda>c. c \<noteq> EQUALS) (map to_url s)"
proof -
  have "(\<lambda>x. if x = SLASH then UNDERSCORE else x) \<circ> (\<lambda>x. if x = PLUS then MINUS else x) = to_url"
    by (auto simp: fun_eq_iff to_url_def)
  then show ?thesis
    by (simp add: String_replace_single String_replace_empty)
qed

lemma url_decode_chars:
  "String_replace (String_replace s MINUS [PLUS]) UNDERSCORE [SLASH] = map from_url s"
proof -
  have "(\<lambda>x. if x = UNDERSCORE then SLASH else x) \<circ> (\<lambda>x. if x = MINUS then PLUS else x) = from_url"
    by (auto simp: fun_eq_iff from_url_def)
  then show ?thesis
    by (simp add: String_replace_single)
qed

lemma base64url_bytes_roundtrip:
  "Buffer_from_base64
     (String_replace
        (String_replace
           (String_replace
              (String_replace (String_replace (Buffer_toString_base64 bs) PLUS [MINUS])
                 SLASH [UNDERSCORE])
              EQUALS [])
           MINUS [PLUS])
        UNDERSCORE [SLASH]
      @ String_repeat [EQUALS] n) = bs"
proof -
  let ?ss = "sextets bs"
  obtain m where b64: "Buffer_toString_base64 bs = map b64_char ?ss @ replicate m EQUALS"
    using toString_base64_sextets by blast
  have small: "\<forall>k \<in> set ?ss. k < 64"
    using sextets_bound by blast
  have "filter (\<lambda>c. c \<noteq> EQUALS) (map to_url (map b64_char ?ss)) = map to_url (map b64_char ?ss)"
    using small by (auto simp: filter_id_conv b64_char_not_special to_url_not_equals)
  then have enc:
    "filter (\<lambda>c. c \<noteq> EQUALS) (map to_url (Buffer_toString_base64 bs)) = map to_url (map b64_char ?ss)"
    by (simp add: b64 to_url_equals)
  have dec: "map from_url (map to_url (map b64_char ?ss)) = map b64_char ?ss"
    using small by (simp add: from_url_to_url b64_char_not_special)
  have no_eq: "\<forall>x \<in> set (map b64_char ?ss). low_byte x \<noteq> 0x3D"
    using small b64_char_not_padding by auto
  show ?thesis
    unfolding url_encode_chars url_decode_chars enc dec String_repeat_single Buffer_from_base64_def
    by (simp only: takeWhile_before_padding [OF no_eq] map_filter_unbase64 [OF small]
          bytes_of_sextets_sextets)
qed

subsection \<open>UTF-8\<close>

lemma utf8_run_1:
  "unat b0 = c \<Longrightarrow> c < 0x80 \<Longrightarrow> utf8_run utf8_init (b0 # bs) = c # utf8_run utf8_init bs"
  by (auto simp: utf8_step_def utf8_lead_def utf8_init_def)

lemma utf8_run_2:
  "unat b0 = 0xC0 + q \<Longrightarrow> 2 \<le> q \<Longrightarrow> q < 32 \<Longrightarrow> unat b1 = 0x80 + r \<Longrightarrow> r < 64 \<Longrightarrow>
   utf8_run utf8_init (b0 # b1 # bs) = (q * 64 + r) # utf8_run utf8_init bs"
  by (auto simp: utf8_step_def utf8_lead_def utf8_init_def)

lemma utf8_run_3:
  "unat b0 = 0xE0 + x \<Longrightarrow> x < 16 \<Longrightarrow> unat b1 = 0x80 + y \<Longrightarrow> y < 64 \<Longrightarrow>
   unat b2 = 0x80 + z \<Longrightarrow> z < 64 \<Longrightarrow> (x = 0 \<longrightarrow> 32 \<le> y) \<Longrightarrow> (x = 13 \<longrightarrow> y < 32) \<Longrightarrow>
   utf8_run utf8_init (b0 # b1 # b2 # bs) = ((x * 64 + y) * 64 + z) # utf8_run utf8_init bs"
  by (auto simp: utf8_step_def utf8_lead_def utf8_init_def)

lemma utf8_run_4:
  "unat b0 = 0xF0 + w \<Longrightarrow> w \<le> 4 \<Longrightarrow> unat b1 = 0x80 + x \<Longrightarrow> x < 64 \<Longrightarrow>
   unat b2 = 0x80 + y \<Longrightarrow> y < 64 \<Longrightarrow> unat b3 = 0x80 + z \<Longrightarrow> z < 64 \<Longrightarrow>
   (w = 0 \<longrightarrow> 16 \<le> x) \<Longrightarrow> (w = 4 \<longrightarrow> x < 16) \<Longrightarrow>
   utf8_run utf8_init (b0 # b1 # b2 # b3 # bs)
     = (((w * 64 + x) * 64 + y) * 64 + z) # utf8_run utf8_init bs"
  by (auto simp: utf8_step_def utf8_lead_def utf8_init_def)


lemma val3: "(c div 4096 * 64 + c div 64 mod 64) * 64 + c mod 64 = (c::nat)"
proof -
  have "c div 4096 = c div 64 div 64" by (simp add: div_mult2_eq)
  then show ?thesis by simp
qed

lemma val4: "((c div 262144 * 64 + c div 4096 mod 64) * 64 + c div 64 mod 64) * 64 + c mod 64 = (c::nat)"
proof -
  have "c div 262144 = c div 4096 div 64" "c div 4096 = c div 64 div 64" by (simp_all add: div_mult2_eq)
  then show ?thesis by simp
qed

lemma mod_in_window:
  assumes "q * n \<le> (k::nat)" and "k < q * n + m" and "m \<le> n"
  shows "k mod n < m"
proof -
  obtain r where k: "k = q * n + r" using assms(1) le_Suc_ex by blast
  with assms(2) have "r < m" by simp
  with assms(3) have "r < n" by simp
  then have "k mod n = r" by (simp add: k)
  with \<open>r < m\<close> show ?thesis by simp
qed

lemma mod_in_window_low:
  assumes "q * n + m \<le> (k::nat)" and "k < q * n + n"
  shows "m \<le> k mod n"
proof -
  obtain r where k: "k = q * n + r" using assms(1) le_Suc_ex
    by (metis add_leD1)
  with assms have "m \<le> r" "r < n" by simp_all
  then have "k mod n = r" by (simp add: k)
  with \<open>m \<le> r\<close> show ?thesis by simp
qed

lemma lo3: "0x800 \<le> (c::nat) \<Longrightarrow> c div 4096 = 0 \<Longrightarrow> 32 \<le> c div 64 mod 64"
proof -
  assume a: "0x800 \<le> c" "c div 4096 = 0"
  then have "c < 4096" by (simp add: div_eq_0_iff)
  then have "c div 64 < 0 * 64 + 64" by (simp add: less_mult_imp_div_less)
  moreover have "0 * 64 + 32 \<le> c div 64" using div_le_mono [OF a(1), of 64] by simp
  ultimately show ?thesis by (rule mod_in_window_low [rotated])
qed

lemma hi3:
  assumes "c div 4096 = 13" and "\<not> (0xD800 \<le> (c::nat) \<and> c \<le> 0xDFFF)"
  shows "c div 64 mod 64 < 32"
proof -
  have "c = 13 * 4096 + c mod 4096" using assms(1) div_mult_mod_eq [of c 4096] by simp
  moreover have "c mod 4096 < 4096" by simp
  ultimately have "53248 \<le> c" "c \<le> 0xDFFF" by linarith+
  with assms(2) have "c < 55296" by simp
  then have "c div 64 < 13 * 64 + 32" by (simp add: less_mult_imp_div_less)
  moreover have "13 * 64 \<le> c div 64" using div_le_mono [OF \<open>53248 \<le> c\<close>, of 64] by simp
  ultimately show ?thesis by (intro mod_in_window [of 13]) simp_all
qed

lemma lo4: "0x10000 \<le> (c::nat) \<Longrightarrow> c div 262144 = 0 \<Longrightarrow> 16 \<le> c div 4096 mod 64"
proof -
  assume a: "0x10000 \<le> c" "c div 262144 = 0"
  then have "c < 262144" by (simp add: div_eq_0_iff)
  then have "c div 4096 < 0 * 64 + 64" by (simp add: less_mult_imp_div_less)
  moreover have "0 * 64 + 16 \<le> c div 4096" using div_le_mono [OF a(1), of 4096] by simp
  ultimately show ?thesis by (rule mod_in_window_low [rotated])
qed

lemma hi4:
  assumes "(c::nat) < 0x110000" and "c div 262144 = 4"
  shows "c div 4096 mod 64 < 16"
proof -
  have "c = 4 * 262144 + c mod 262144" using assms(2) div_mult_mod_eq [of c 262144] by simp
  then have "1048576 \<le> c" by linarith
  have "c div 4096 < 4 * 64 + 16" using assms(1) by (simp add: less_mult_imp_div_less)
  moreover have "4 * 64 \<le> c div 4096" using div_le_mono [OF \<open>1048576 \<le> c\<close>, of 4096] by simp
  ultimately show ?thesis by (intro mod_in_window [of 4]) simp_all
qed


lemma utf8_run_code_point:
  assumes "c < 0x110000" and "\<not> (0xD800 \<le> c \<and> c \<le> 0xDFFF)"
  shows "utf8_run utf8_init (utf8_of_code_point c @ bs) = c # utf8_run utf8_init bs"
proof -
  have cont: "\<And>n. unat (of_nat (0x80 + n mod 64) :: 8 word) = 0x80 + n mod 64"
  proof -
    fix n :: nat
    have "n mod 64 < 64" by simp
    then have "0x80 + n mod 64 < 256" by linarith
    then show "unat (of_nat (0x80 + n mod 64) :: 8 word) = 0x80 + n mod 64"
      by (rule unat_byte_of_nat)
  qed
  consider "c < 0x80" | "0x80 \<le> c" "c < 0x800" | "0x800 \<le> c" "c < 0x10000" | "0x10000 \<le> c"
    by linarith
  then show ?thesis
  proof cases
    case 1
    then have "utf8_run utf8_init (of_nat c # bs) = c # utf8_run utf8_init bs"
      by (intro utf8_run_1) (simp_all add: unat_byte_of_nat)
    with 1 show ?thesis
      by (simp add: utf8_of_code_point_def del: utf8_run.simps)
  next
    case 2
    have q: "2 \<le> c div 64" "c div 64 < 32"
      using div_le_mono [OF 2(1), of 64] 2(2) by (simp_all add: less_mult_imp_div_less)
    then have "0xC0 + c div 64 < 256" by linarith
    then have b0: "unat (of_nat (0xC0 + c div 64) :: 8 word) = 0xC0 + c div 64"
      by (rule unat_byte_of_nat)
    have "utf8_run utf8_init (of_nat (0xC0 + c div 64) # of_nat (0x80 + c mod 64) # bs)
            = (c div 64 * 64 + c mod 64) # utf8_run utf8_init bs"
      using q by (intro utf8_run_2 b0 cont) simp_all
    with 2 show ?thesis
      by (simp add: utf8_of_code_point_def del: of_nat_add utf8_run.simps)
  next
    case 3
    have x: "c div 4096 < 16"
      using 3(2) by (simp add: less_mult_imp_div_less)
    then have "0xE0 + c div 4096 < 256" by linarith
    then have b0: "unat (of_nat (0xE0 + c div 4096) :: 8 word) = 0xE0 + c div 4096"
      by (rule unat_byte_of_nat)
    have "utf8_run utf8_init
            (of_nat (0xE0 + c div 4096) # of_nat (0x80 + c div 64 mod 64) # of_nat (0x80 + c mod 64) # bs)
            = ((c div 4096 * 64 + c div 64 mod 64) * 64 + c mod 64) # utf8_run utf8_init bs"
      using x lo3 [OF 3(1)] hi3 [OF _ assms(2)] by (intro utf8_run_3 b0 cont) simp_all
    then have "utf8_run utf8_init
            (of_nat (0xE0 + c div 4096) # of_nat (0x80 + c div 64 mod 64) # of_nat (0x80 + c mod 64) # bs)
            = c # utf8_run utf8_init bs"
      by (simp only: val3)
    with 3 show ?thesis
      by (simp add: utf8_of_code_point_def del: of_nat_add utf8_run.simps)
  next
    case 4
    have w: "c div 262144 \<le> 4"
    proof -
      have "c div 262144 < 5" using assms(1) by (simp add: less_mult_imp_div_less)
      then show ?thesis by simp
    qed
    then have "0xF0 + c div 262144 < 256" by linarith
    then have b0: "unat (of_nat (0xF0 + c div 262144) :: 8 word) = 0xF0 + c div 262144"
      by (rule unat_byte_of_nat)
    have "utf8_run utf8_init
            (of_nat (0xF0 + c div 262144) # of_nat (0x80 + c div 4096 mod 64)
             # of_nat (0x80 + c div 64 mod 64) # of_nat (0x80 + c mod 64) # bs)
            = (((c div 262144 * 64 + c div 4096 mod 64) * 64 + c div 64 mod 64) * 64 + c mod 64)
              # utf8_run utf8_init bs"
      using w lo4 [OF 4] hi4 [OF assms(1)] by (intro utf8_run_4 b0 cont) simp_all
    then have "utf8_run utf8_init
            (of_nat (0xF0 + c div 262144) # of_nat (0x80 + c div 4096 mod 64)
             # of_nat (0x80 + c div 64 mod 64) # of_nat (0x80 + c mod 64) # bs)
            = c # utf8_run utf8_init bs"
      by (simp only: val4)
    with 4 show ?thesis
      by (simp add: utf8_of_code_point_def del: of_nat_add utf8_run.simps)
  qed
qed


lemma toString_utf8_Nil: "Buffer_toString_utf8 [] = []"
  by (simp add: Buffer_toString_utf8_def utf8_init_def)

lemma toString_utf8_code_point:
  assumes "c < 0x110000" and "\<not> (0xD800 \<le> c \<and> c \<le> 0xDFFF)"
  shows "Buffer_toString_utf8 (utf8_of_code_point c @ bs)
           = utf16_of_code_point c @ Buffer_toString_utf8 bs"
  unfolding Buffer_toString_utf8_def utf8_run_code_point [OF assms] by simp

lemma unit_of_unat: "of_nat (unat (u :: 16 word)) = u"
  by simp

lemma utf16_single: "utf16_of_code_point (unat (u :: 16 word)) = [u]"
  using unat_unit_bound [of u] by (simp only: utf16_of_code_point_def if_True unit_of_unat)

lemma pair_value:
  assumes "is_high_surrogate u" and "is_low_surrogate l"
  shows "0x10000 \<le> 0x10000 + (unat u - 0xD800) * 1024 + (unat l - 0xDC00)"
    and "0x10000 + (unat u - 0xD800) * 1024 + (unat l - 0xDC00) < 0x110000"
    and "0xD800 + (0x10000 + (unat u - 0xD800) * 1024 + (unat l - 0xDC00) - 0x10000) div 1024 = unat u"
    and "0xDC00 + (0x10000 + (unat u - 0xD800) * 1024 + (unat l - 0xDC00) - 0x10000) mod 1024 = unat l"
proof -
  from assms have u: "0xD800 \<le> unat u" "unat u - 0xD800 < 1024"
    and l: "0xDC00 \<le> unat l" "unat l - 0xDC00 < 1024"
    by (auto simp: is_high_surrogate_def is_low_surrogate_def)
  show "0x10000 \<le> 0x10000 + (unat u - 0xD800) * 1024 + (unat l - 0xDC00)"
    by simp
  show "0x10000 + (unat u - 0xD800) * 1024 + (unat l - 0xDC00) < 0x110000"
    using u(2) l(2) by linarith
  have "0x10000 + (unat u - 0xD800) * 1024 + (unat l - 0xDC00) - 0x10000
          = (unat u - 0xD800) * 1024 + (unat l - 0xDC00)"
    by simp
  then show "0xD800 + (0x10000 + (unat u - 0xD800) * 1024 + (unat l - 0xDC00) - 0x10000) div 1024 = unat u"
    and "0xDC00 + (0x10000 + (unat u - 0xD800) * 1024 + (unat l - 0xDC00) - 0x10000) mod 1024 = unat l"
    using u l by (simp_all only: div_mult_add_small mod_mult_add_small le_add_diff_inverse)
qed

lemma utf16_pair:
  assumes "is_high_surrogate u" and "is_low_surrogate l"
  shows "utf16_of_code_point (0x10000 + (unat u - 0xD800) * 1024 + (unat l - 0xDC00)) = [u, l]"
proof -
  have "\<not> 0x10000 + (unat u - 0xD800) * 1024 + (unat l - 0xDC00) < 0x10000"
    by simp
  then show ?thesis
    by (simp only: utf16_of_code_point_def if_False pair_value(3,4) [OF assms] unit_of_unat)
qed

lemma single_scalar:
  assumes "\<not> is_high_surrogate u" and "\<not> is_low_surrogate u"
  shows "single_code_point u = unat u" and "unat u < 0x110000"
    and "\<not> (0xD800 \<le> unat u \<and> unat u \<le> 0xDFFF)"
  using assms unat_unit_bound [of u]
  by (auto simp: single_code_point_def is_high_surrogate_def is_low_surrogate_def)

lemma well_formed_single:
  assumes "\<not> is_high_surrogate u" and "\<not> is_low_surrogate u"
  shows "Buffer_toString_utf8 (utf8_of_code_point (single_code_point u) @ bs)
           = u # Buffer_toString_utf8 bs"
  using single_scalar [OF assms]
  by (simp add: toString_utf8_code_point utf16_single)

lemma well_formed_pair:
  assumes "is_high_surrogate u" and "is_low_surrogate l"
  shows "Buffer_toString_utf8
           (utf8_of_code_point (0x10000 + (unat u - 0xD800) * 1024 + (unat l - 0xDC00)) @ bs)
           = u # l # Buffer_toString_utf8 bs"
proof -
  have "\<not> (0xD800 \<le> 0x10000 + (unat u - 0xD800) * 1024 + (unat l - 0xDC00)
          \<and> 0x10000 + (unat u - 0xD800) * 1024 + (unat l - 0xDC00) \<le> 0xDFFF)"
    by simp
  from toString_utf8_code_point [OF pair_value(2) [OF assms] this, of bs] show ?thesis
    by (simp only: utf16_pair [OF assms] append.simps)
qed

lemma utf8_roundtrip: "well_formed s \<Longrightarrow> Buffer_toString_utf8 (Buffer_from_utf8 s) = s"
proof (induction s rule: Buffer_from_utf8.induct)
  case 1
  show ?case by (simp add: toString_utf8_Nil)
next
  case (2 u)
  then have "\<not> is_high_surrogate u" "\<not> is_low_surrogate u" by simp_all
  from well_formed_single [OF this, of "[]"] show ?case
    by (simp add: toString_utf8_Nil)
next
  case (3 u l rest)
  show ?case
  proof (cases "is_high_surrogate u")
    case True
    with "3.prems" have l: "is_low_surrogate l" and rest: "well_formed rest" by simp_all
    from "3.IH"(1) True l rest have "Buffer_toString_utf8 (Buffer_from_utf8 rest) = rest" by simp
    with True l show ?thesis
      by (simp add: well_formed_pair)
  next
    case False
    with "3.prems" have u: "\<not> is_low_surrogate u" and rest: "well_formed (l # rest)" by simp_all
    from "3.IH"(2) False rest have "Buffer_toString_utf8 (Buffer_from_utf8 (l # rest)) = l # rest"
      by simp
    with False u show ?thesis
      by (simp add: well_formed_single)
  qed
qed

section \<open>Encoding, then decoding\<close>

lemma base64Url_roundtrip: "well_formed s \<Longrightarrow> base64UrlDecode (base64UrlEncode s) = Inr s"
  by (simp only: base64UrlDecode_def base64UrlEncode_def Let_def base64url_bytes_roundtrip
        utf8_roundtrip)


lemma hex_digit_range: "d < 16 \<Longrightarrow> 48 \<le> unat (hex_digit d) \<and> unat (hex_digit d) \<le> 102"
proof (cases "d < 10")
  case True
  then have "unat (of_nat (48 + d) :: 16 word) = 48 + d"
    by (intro unat_unit_of_nat) simp
  with True show ?thesis
    by (simp add: hex_digit_def del: of_nat_add)
next
  case False
  assume "d < 16"
  then have "unat (of_nat (87 + d) :: 16 word) = 87 + d"
    by (intro unat_unit_of_nat) simp
  with False \<open>d < 16\<close> show ?thesis
    by (simp add: hex_digit_def del: of_nat_add)
qed

lemma plain_unit:
  assumes "48 \<le> unat (u :: 16 word)" and "unat u \<le> 102"
  shows "u \<noteq> PIPE \<and> u \<noteq> DOT \<and> \<not> is_high_surrogate u \<and> \<not> is_low_surrogate u"
proof -
  have "unat PIPE = 124" "unat DOT = 46" by simp_all
  with assms show ?thesis
    by (auto simp: is_high_surrogate_def is_low_surrogate_def)
qed

lemma hex_of_bytes_plain:
  assumes "u \<in> set (hex_of_bytes bs)"
  shows "u \<noteq> PIPE \<and> u \<noteq> DOT \<and> \<not> is_high_surrogate u \<and> \<not> is_low_surrogate u"
proof -
  from assms obtain b :: byte
    where b: "u = hex_digit (unat b div 16) \<or> u = hex_digit (unat b mod 16)"
    unfolding hex_of_bytes_def by auto
  have "unat b div 16 < 16" "unat b mod 16 < 16"
    by (simp_all add: byte_div16)
  with b hex_digit_range show ?thesis
    by (intro plain_unit) auto
qed



lemma well_formed_plain:
  "\<forall>u \<in> set s. \<not> is_high_surrogate u \<and> \<not> is_low_surrogate u \<Longrightarrow> well_formed s"
  by (induction s rule: well_formed.induct) simp_all


lemma well_formed_append: "well_formed a \<Longrightarrow> well_formed b \<Longrightarrow> well_formed (a @ b)"
proof (induction a rule: well_formed.induct)
  case 1
  then show ?case by simp
next
  case (2 u)
  then show ?case by (cases b) simp_all
next
  case (3 u l rest)
  then show ?case by (simp split: if_splits)
qed


lemma well_formed_delimiters: "well_formed [PIPE]" "well_formed [DOT]"
  by (simp_all add: is_high_surrogate_def is_low_surrogate_def)


lemma signature_plain:
  "PIPE \<notin> set (generateSignature p k)" "DOT \<notin> set (generateSignature p k)"
  "well_formed (generateSignature p k)"
proof -
  show "PIPE \<notin> set (generateSignature p k)" "DOT \<notin> set (generateSignature p k)"
    unfolding generateSignature_def using hex_of_bytes_plain by blast+
  show "well_formed (generateSignature p k)"
    unfolding generateSignature_def using hex_of_bytes_plain by (intro well_formed_plain) blast
qed


lemma split_fullKey:
  assumes "PIPE \<notin> set i" "PIPE \<notin> set e" "PIPE \<notin> set p" "PIPE \<notin> set n" "PIPE \<notin> set sg"
  shows "String_split (payload_text i e p n @ DOT # sg) PIPE = [i, e, p, n @ DOT # sg]"
proof -
  have last: "PIPE \<notin> set (n @ DOT # sg)"
    using assms by simp
  have "split_from PIPE [] (i @ PIPE # e @ PIPE # p @ PIPE # (n @ DOT # sg))
          = [i, e, p, n @ DOT # sg]"
    by (simp only: split_from_first [OF assms(1)] split_from_first [OF assms(2)]
          split_from_first [OF assms(3)] split_from_no_sep [OF last] append_Nil)
  then show ?thesis
    by (simp add: String_split_def payload_text_def)
qed


lemma split_nonceAndSig:
  assumes "DOT \<notin> set n" "DOT \<notin> set sg"
  shows "String_split (n @ DOT # sg) DOT = [n, sg]"
  using split_from_first [OF assms(1), of "[]" sg] split_from_no_sep [OF assms(2), of "[]"]
  by (simp add: String_split_def)

lemma verify_created:
  assumes wf: "well_formed i" "well_formed e" "well_formed p" "well_formed n"
    and pipe: "PIPE \<notin> set i" "PIPE \<notin> set e" "PIPE \<notin> set p" "PIPE \<notin> set n"
    and dot: "DOT \<notin> set n"
  shows "verifyActivationKey D now (createActivationKey i e p n sA) sB =
           (if generateSignature (payload_text i e p n) sA \<noteq> generateSignature (payload_text i e p n) sB
            then invalid ''Invalid signature''
            else case D e of
                   None \<Rightarrow> invalid ''Invalid expiry date format''
                 | Some t \<Rightarrow> if t \<le> now then invalid ''Key has expired'' else valid_with i e p n)"
proof -
  let ?sg = "generateSignature (payload_text i e p n) sA"
  let ?full = "payload_text i e p n @ DOT # ?sg"
  have "well_formed (payload_text i e p n)"
    unfolding payload_text_def
    by (intro well_formed_append wf well_formed_delimiters)
  then have "well_formed (payload_text i e p n @ [DOT] @ ?sg)"
    by (intro well_formed_append well_formed_delimiters signature_plain)
  then have "well_formed ?full"
    by simp
  then have decoded: "base64UrlDecode (createActivationKey i e p n sA) = Inr ?full"
    by (simp add: createActivationKey_def Let_def base64Url_roundtrip)
  have parts: "String_split ?full PIPE = [i, e, p, n @ DOT # ?sg]"
    by (rule split_fullKey [OF pipe signature_plain(1)])
  have lastParts: "String_split (n @ DOT # ?sg) DOT = [n, ?sg]"
    by (rule split_nonceAndSig [OF dot signature_plain(2)])
  show ?thesis
    by (simp add: verifyActivationKey_def decoded parts lastParts Let_def)
qed

section \<open>Sample inputs\<close>

lemma sample_fields:
  "well_formed (js ''u1'')" "PIPE \<notin> set (js ''u1'')"
  "well_formed (js ''2030-01-01T00:00:00.000Z'')" "PIPE \<notin> set (js ''2030-01-01T00:00:00.000Z'')"
  "well_formed (js ''basic'')" "PIPE \<notin> set (js ''basic'')"
  "well_formed (js ''n1'')" "PIPE \<notin> set (js ''n1'')" "DOT \<notin> set (js ''n1'')"
  "well_formed (js ''n.1'')" "PIPE \<notin> set (js ''n.1'')" "DOT \<in> set (js ''n.1'')"
  "Date_parse_sample (js ''2030-01-01T00:00:00.000Z'') = Some 1893456000000"
  by (simp_all add: js_def is_high_surrogate_def is_low_surrogate_def Date_parse_sample_def)

lemma premium_field: "well_formed (js ''premium'')" "PIPE \<notin> set (js ''premium'')"
  by (simp_all add: js_def is_high_surrogate_def is_low_surrogate_def)

lemma delimiter_fields:
  "well_formed (js ''a|b'')" "PIPE \<in> set (js ''a|b'')"
  by (simp_all add: js_def is_high_surrogate_def is_low_surrogate_def)

lemmas decode_eval =
  base64UrlDecode_def js_def String_repeat_def String_replace_def Buffer_from_base64_def
  low_byte_def unbase64_def List.map_filter_simps Buffer_toString_utf8_def utf8_step_def utf8_lead_def
  utf8_init_def utf16_of_code_point_def Let_def

lemma decoded_garbage: "base64UrlDecode (js ''!!!!'') = Inr []"
  by (simp add: decode_eval)

lemma decoded_a: "base64UrlDecode (js ''YQ'') = Inr (js ''a'')"
  by (simp add: decode_eval)

lemma decoded_four_fields: "base64UrlDecode (js ''YXxifGN8ZA'') = Inr (js ''a|b|c|d'')"
  by (simp add: decode_eval)

lemma decoded_short_signature: "base64UrlDecode (js ''YXxifGN8ZC5l'') = Inr (js ''a|b|c|d.e'')"
  by (simp add: decode_eval)

lemma split_samples:
  "String_split [] PIPE = [[]]"
  "String_split (js ''a'') PIPE = [js ''a'']"
  "String_split (js ''a|b|c|d'') PIPE = [js ''a'', js ''b'', js ''c'', js ''d'']"
  "String_split (js ''d'') DOT = [js ''d'']"
  "String_split (js ''a|b|c|d.e'') PIPE = [js ''a'', js ''b'', js ''c'', js ''d.e'']"
  "String_split (js ''d.e'') DOT = [js ''d'', js ''e'']"
  by (simp_all add: String_split_def js_def)

lemma count_samples:
  "count_list (js ''a'') PIPE = 0"
  "count_list (js ''a|b|c|d'') PIPE = 3"
  "count_list (js ''d'') DOT = 0"
  "count_list (js ''a|b|c|d.e'') PIPE = 3"
  "DOT \<notin> set (js ''a'')"
  by (simp_all add: js_def)

section \<open>Verification of created keys\<close>

lemma created_decodes:
  assumes "well_formed i" "well_formed e" "well_formed p" "well_formed n"
  shows "base64UrlDecode (createActivationKey i e p n s)
           = Inr (payload_text i e p n @ DOT # generateSignature (payload_text i e p n) s)"
proof -
  have "well_formed (payload_text i e p n)"
    unfolding payload_text_def
    by (intro well_formed_append assms well_formed_delimiters)
  then have "well_formed (payload_text i e p n @ [DOT] @ generateSignature (payload_text i e p n) s)"
    by (intro well_formed_append well_formed_delimiters signature_plain)
  then show ?thesis
    by (simp add: createActivationKey_def Let_def base64Url_roundtrip)
qed

lemma invalid_eq: "invalid a = invalid b \<longleftrightarrow> a = b"
  by (simp add: invalid_def)

lemma valid_with_not_invalid: "valid_with i e p n \<noteq> invalid r"
  by (simp add: invalid_def valid_with_def)

lemma verify_dotted_nonce:
  assumes wf: "well_formed i" "well_formed e" "well_formed p" "well_formed n"
    and pipe: "PIPE \<notin> set i" "PIPE \<notin> set e" "PIPE \<notin> set p" "PIPE \<notin> set n"
    and dot: "DOT \<in> set n"
  shows "verifyActivationKey D now (createActivationKey i e p n sA) sB
           = invalid ''Invalid nonce/signature format''"
proof -
  let ?sg = "generateSignature (payload_text i e p n) sA"
  let ?full = "payload_text i e p n @ DOT # ?sg"
  have "well_formed (payload_text i e p n)"
    unfolding payload_text_def
    by (intro well_formed_append wf well_formed_delimiters)
  then have "well_formed (payload_text i e p n @ [DOT] @ ?sg)"
    by (intro well_formed_append well_formed_delimiters signature_plain)
  then have "well_formed ?full"
    by simp
  then have decoded: "base64UrlDecode (createActivationKey i e p n sA) = Inr ?full"
    by (simp add: createActivationKey_def Let_def base64Url_roundtrip)
  have parts: "String_split ?full PIPE = [i, e, p, n @ DOT # ?sg]"
    by (rule split_fullKey [OF pipe signature_plain(1)])
  have "count_list n DOT \<noteq> 0"
    using dot by (simp only: count_list_0_iff not_not)
  then have lastParts: "length (String_split (n @ DOT # ?sg) DOT) \<noteq> 2"
    by (simp add: String_split_def length_split_from)
  show ?thesis
    by (simp add: verifyActivationKey_def decoded parts lastParts Let_def)
qed

lemma verify_delimiter_in_field:
  assumes wf: "well_formed i" "well_formed e" "well_formed p" "well_formed n"
    and pipe: "PIPE \<in> set i \<union> set e \<union> set p \<union> set n"
  shows "verifyActivationKey D now (createActivationKey i e p n sA) sB
           = invalid ''Invalid payload format''"
proof -
  let ?full = "payload_text i e p n @ DOT # generateSignature (payload_text i e p n) sA"
  have "count_list i PIPE + count_list e PIPE + count_list p PIPE + count_list n PIPE \<noteq> 0"
    using pipe by (auto simp: count_list_0_iff)
  then have "length (String_split ?full PIPE) \<noteq> 4"
    by (simp add: String_split_def length_split_from payload_text_def signature_plain(1))
  then show ?thesis
    by (simp add: verifyActivationKey_def created_decodes [OF wf] Let_def)
qed

lemma lone_surrogate_payload:
  "Buffer_from_utf8 (0xD800 # PIPE # rest) = Buffer_from_utf8 (0xFFFD # PIPE # rest)"
  by (simp add: is_high_surrogate_def is_low_surrogate_def single_code_point_def)

lemma create_lone_surrogate:
  "createActivationKey [0xD800] e p n s = createActivationKey [0xFFFD] e p n s"
  by (simp add: createActivationKey_def Let_def payload_text_def generateSignature_def
        base64UrlEncode_def lone_surrogate_payload del: Buffer_from_utf8.simps)



lemma length_hex_of_bytes: "length (hex_of_bytes bs) = 2 * length bs"
  by (induction bs) (simp_all add: hex_of_bytes_def)

lemma verify_samples:
  "verifyActivationKey D now (js ''!!!!'') s = invalid ''Invalid payload format''"
  "verifyActivationKey D now (js ''YQ'') s = invalid ''Invalid payload format''"
  "verifyActivationKey D now (js ''YXxifGN8ZA'') s = invalid ''Invalid nonce/signature format''"
  by (simp_all add: verifyActivationKey_def decoded_garbage decoded_a decoded_four_fields split_samples)

lemma verify_short_signature:
  "verifyActivationKey D now (js ''YXxifGN8ZC5l'') s = invalid ''Invalid signature''"
proof -
  have "length (generateSignature p s) \<noteq> 1" for p
    by (simp add: generateSignature_def length_hex_of_bytes)
  then have "js ''e'' \<noteq> generateSignature p s" for p
    by (metis length_Cons list.size(3) js_def list.map(1,2) One_nat_def)
  then show ?thesis
    by (simp add: verifyActivationKey_def decoded_short_signature split_samples Let_def)
qed

lemma sample_key_valid:
  "verifyActivationKey Date_parse_sample 1700000000000
     (createActivationKey (js ''u1'') (js ''2030-01-01T00:00:00.000Z'') (js ''premium'') (js ''n1'')
        (js ''s3cret''))
     (js ''s3cret'')
   = valid_with (js ''u1'') (js ''2030-01-01T00:00:00.000Z'') (js ''premium'') (js ''n1'')"
  by (simp add: verify_created sample_fields premium_field)

section \<open>The token codec: round trip\<close>

text \<open>
  C1, as amended. For every claims quadruple whose fields are well formed and free of the
  field delimiter \<open>|\<close>, whose nonce has no \<open>.\<close>, and whose expiry the runtime reads as
  an instant strictly after now, and for every secret: verifying the key that
  \<open>createActivationKey\<close> makes, with the same secret, is valid and carries exactly those
  four fields.
\<close>

theorem round_trip:
  assumes "well_formed i" "well_formed e" "well_formed p" "well_formed n"
    and "PIPE \<notin> set i" "PIPE \<notin> set e" "PIPE \<notin> set p" "PIPE \<notin> set n"
    and "DOT \<notin> set n"
    and "D e = Some t" and "now < t"
  shows "verifyActivationKey D now (createActivationKey i e p n s) s = valid_with i e p n"
  using assms(10,11) by (simp add: verify_created [OF assms(1-9)])

text \<open>A key for \<open>u1\<close> that expires in 2030, verified in 2023.\<close>

theorem round_trip_witness:
  "verifyActivationKey Date_parse_sample 1700000000000
     (createActivationKey (js ''u1'') (js ''2030-01-01T00:00:00.000Z'') (js ''basic'') (js ''n1'')
        (js ''s3cret''))
     (js ''s3cret'')
   = valid_with (js ''u1'') (js ''2030-01-01T00:00:00.000Z'') (js ''basic'') (js ''n1'')"
  by (rule round_trip [where t = 1893456000000]) (simp_all add: sample_fields)

text \<open>
  The claim as stated asks only that no field has the delimiter. A nonce with a dot makes the
  last part split in three, and the key is rejected; an identifier that is a lone surrogate
  is written as U+FFFD, and the key is accepted with another identifier.
\<close>

theorem round_trip_counterexample:
  "PIPE \<notin> set (js ''u1'') \<and> PIPE \<notin> set (js ''2030-01-01T00:00:00.000Z'') \<and>
   PIPE \<notin> set (js ''basic'') \<and> PIPE \<notin> set (js ''n.1'') \<and> PIPE \<notin> set [0xD800 :: code_unit] \<and>
   Date_parse_sample (js ''2030-01-01T00:00:00.000Z'') = Some 1893456000000 \<and>
   (1700000000000 :: int) < 1893456000000 \<and>
   verifyActivationKey Date_parse_sample 1700000000000
     (createActivationKey (js ''u1'') (js ''2030-01-01T00:00:00.000Z'') (js ''basic'') (js ''n.1'')
        (js ''s3cret''))
     (js ''s3cret'')
   = invalid ''Invalid nonce/signature format'' \<and>
   verifyActivationKey Date_parse_sample 1700000000000
     (createActivationKey [0xD800] (js ''2030-01-01T00:00:00.000Z'') (js ''basic'') (js ''n1'')
        (js ''s3cret''))
     (js ''s3cret'')
   = valid_with [0xFFFD] (js ''2030-01-01T00:00:00.000Z'') (js ''basic'') (js ''n1'') \<and>
   valid_with [0xFFFD] (js ''2030-01-01T00:00:00.000Z'') (js ''basic'') (js ''n1'')
   \<noteq> valid_with [0xD800] (js ''2030-01-01T00:00:00.000Z'') (js ''basic'') (js ''n1'')"
proof -
  have dotted:
    "verifyActivationKey Date_parse_sample 1700000000000
       (createActivationKey (js ''u1'') (js ''2030-01-01T00:00:00.000Z'') (js ''basic'') (js ''n.1'')
          (js ''s3cret''))
       (js ''s3cret'')
     = invalid ''Invalid nonce/signature format''"
    by (rule verify_dotted_nonce) (simp_all add: sample_fields)
  have wf: "well_formed [0xFFFD]" "PIPE \<notin> set [0xFFFD :: code_unit]"
    by (simp_all add: is_high_surrogate_def is_low_surrogate_def)
  have replaced:
    "verifyActivationKey Date_parse_sample 1700000000000
       (createActivationKey [0xD800] (js ''2030-01-01T00:00:00.000Z'') (js ''basic'') (js ''n1'')
          (js ''s3cret''))
       (js ''s3cret'')
     = valid_with [0xFFFD] (js ''2030-01-01T00:00:00.000Z'') (js ''basic'') (js ''n1'')"
    unfolding create_lone_surrogate
    by (simp add: verify_created [OF wf(1) sample_fields(3,5,7) wf(2) sample_fields(4,6,8,9)]
          sample_fields(13))
  have differ:
    "valid_with [0xFFFD] (js ''2030-01-01T00:00:00.000Z'') (js ''basic'') (js ''n1'')
     \<noteq> valid_with [0xD800] (js ''2030-01-01T00:00:00.000Z'') (js ''basic'') (js ''n1'')"
    by (simp add: valid_with_def)
  from dotted replaced differ show ?thesis
    by (simp add: sample_fields)
qed

section \<open>The token codec: order of the checks\<close>

text \<open>
  C2, as amended. After the decoding, \<open>verifyActivationKey\<close> first splits the text on the
  field delimiter and answers \<open>Invalid payload format\<close> unless there are exactly four
  fields (three delimiters); only then does it split the fourth field on every \<open>.\<close> and
  answer \<open>Invalid nonce/signature format\<close> unless there are exactly two parts (one dot).
  Both answers are given whatever the secret and the clock. The signature is compared only
  after both checks, and the expiry is read only when the signature is the expected one.
\<close>

theorem check_order:
  assumes "base64UrlDecode key = Inr decoded"
  shows
    "(count_list decoded PIPE \<noteq> 3 \<longrightarrow>
        verifyActivationKey D now key s = invalid ''Invalid payload format'') \<and>
     (count_list decoded PIPE = 3 \<and> count_list (String_split decoded PIPE ! 3) DOT \<noteq> 1 \<longrightarrow>
        verifyActivationKey D now key s = invalid ''Invalid nonce/signature format'') \<and>
     (verifyActivationKey D now key s = invalid ''Invalid signature'' \<longrightarrow>
        count_list decoded PIPE = 3 \<and> count_list (String_split decoded PIPE ! 3) DOT = 1) \<and>
     (verifyActivationKey D now key s = invalid ''Invalid expiry date format'' \<or>
      verifyActivationKey D now key s = invalid ''Key has expired'' \<or>
      valid (verifyActivationKey D now key s) \<longrightarrow>
        count_list decoded PIPE = 3 \<and> count_list (String_split decoded PIPE ! 3) DOT = 1 \<and>
        String_split (String_split decoded PIPE ! 3) DOT ! 1
          = generateSignature
              (payload_text (String_split decoded PIPE ! 0) (String_split decoded PIPE ! 1)
                 (String_split decoded PIPE ! 2)
                 (String_split (String_split decoded PIPE ! 3) DOT ! 0)) s)"
  using assms
  by (auto simp: verifyActivationKey_def Let_def String_split_def length_split_from invalid_eq
        valid_with_not_invalid invalid_def valid_with_def split: option.splits if_splits)

text \<open>
  The decoded texts \<open>a\<close>, \<open>a|b|c|d\<close> and \<open>a|b|c|d.e\<close> (whose signature is too short
  to be one), and a created key.
\<close>

theorem check_order_witness:
  "verifyActivationKey Date_parse_sample 1700000000000 (js ''YQ'') (js ''s3cret'')
     = invalid ''Invalid payload format'' \<and>
   verifyActivationKey Date_parse_sample 1700000000000 (js ''YXxifGN8ZA'') (js ''s3cret'')
     = invalid ''Invalid nonce/signature format'' \<and>
   count_list (js ''a|b|c|d.e'') PIPE = 3 \<and>
   count_list (String_split (js ''a|b|c|d.e'') PIPE ! 3) DOT = 1 \<and>
   count_list
     (payload_text (js ''u1'') (js ''2030-01-01T00:00:00.000Z'') (js ''premium'') (js ''n1'')
      @ DOT # generateSignature
          (payload_text (js ''u1'') (js ''2030-01-01T00:00:00.000Z'') (js ''premium'') (js ''n1''))
          (js ''s3cret''))
     PIPE = 3"
proof -
  from check_order [OF decoded_a, of Date_parse_sample 1700000000000 "js ''s3cret''"]
    count_samples(1)
  have 1: "verifyActivationKey Date_parse_sample 1700000000000 (js ''YQ'') (js ''s3cret'')
             = invalid ''Invalid payload format''"
    by simp
  have "count_list (String_split (js ''a|b|c|d'') PIPE ! 3) DOT \<noteq> 1"
    by (simp add: split_samples count_samples)
  with check_order [OF decoded_four_fields, of Date_parse_sample 1700000000000 "js ''s3cret''"]
    count_samples(2)
  have 2: "verifyActivationKey Date_parse_sample 1700000000000 (js ''YXxifGN8ZA'') (js ''s3cret'')
             = invalid ''Invalid nonce/signature format''"
    by blast
  from check_order [OF decoded_short_signature, of Date_parse_sample 1700000000000 "js ''s3cret''"]
    verify_short_signature [of Date_parse_sample 1700000000000 "js ''s3cret''"]
  have 3: "count_list (js ''a|b|c|d.e'') PIPE = 3 \<and>
           count_list (String_split (js ''a|b|c|d.e'') PIPE ! 3) DOT = 1"
    by blast
  have "valid (verifyActivationKey Date_parse_sample 1700000000000
                 (createActivationKey (js ''u1'') (js ''2030-01-01T00:00:00.000Z'') (js ''premium'')
                    (js ''n1'') (js ''s3cret''))
                 (js ''s3cret''))"
    by (simp add: sample_key_valid valid_with_def)
  with check_order [where D = Date_parse_sample and now = 1700000000000 and s = "js ''s3cret''",
      OF created_decodes [OF sample_fields(1,3) premium_field(1) sample_fields(7),
        of "js ''s3cret''"]]
  have 4: "count_list
     (payload_text (js ''u1'') (js ''2030-01-01T00:00:00.000Z'') (js ''premium'') (js ''n1'')
      @ DOT # generateSignature
          (payload_text (js ''u1'') (js ''2030-01-01T00:00:00.000Z'') (js ''premium'') (js ''n1''))
          (js ''s3cret''))
     PIPE = 3"
    by blast
  from 1 2 3 4 show ?thesis by blast
qed

text \<open>
  The claim as stated puts the split on the dot first: a text with no dot and no delimiter
  would be answered \<open>Invalid nonce/signature format\<close>. The answer is
  \<open>Invalid payload format\<close>.
\<close>

theorem check_order_counterexample:
  "base64UrlDecode (js ''YQ'') = Inr (js ''a'') \<and> DOT \<notin> set (js ''a'') \<and>
   verifyActivationKey Date_parse_sample 1700000000000 (js ''YQ'') (js ''s3cret'')
     = invalid ''Invalid payload format'' \<and>
   invalid ''Invalid payload format'' \<noteq> invalid ''Invalid nonce/signature format''"
  by (simp add: decoded_a count_samples verify_samples invalid_eq)

section \<open>The token codec: another secret\<close>




section \<open>The token codec: expiry\<close>

text \<open>
  C4. For a key that has the structure (four fields, the last one a nonce, a dot and a
  signature) and the expected signature, and whose expiry the runtime reads as the instant
  \<open>t\<close>: the answer is \<open>Key has expired\<close> when \<open>t\<close> is now or earlier, and valid with
  the four fields when \<open>t\<close> is strictly after now.
\<close>

theorem expiry_boundary:
  assumes "base64UrlDecode key = Inr decoded"
    and "String_split decoded PIPE = [i, e, p, ns]"
    and "String_split ns DOT = [n, sg]"
    and "sg = generateSignature (payload_text i e p n) s"
    and "D e = Some t"
  shows "verifyActivationKey D now key s
           = (if t \<le> now then invalid ''Key has expired'' else valid_with i e p n)"
  using assms by (simp add: verifyActivationKey_def Let_def)

text \<open>A key that expires at 1893456000000: verified at that instant, and one millisecond before.\<close>

theorem expiry_boundary_witness:
  "verifyActivationKey Date_parse_sample 1893456000000
     (createActivationKey (js ''u1'') (js ''2030-01-01T00:00:00.000Z'') (js ''basic'') (js ''n1'')
        (js ''s3cret''))
     (js ''s3cret'')
     = invalid ''Key has expired'' \<and>
   verifyActivationKey Date_parse_sample 1893455999999
     (createActivationKey (js ''u1'') (js ''2030-01-01T00:00:00.000Z'') (js ''basic'') (js ''n1'')
        (js ''s3cret''))
     (js ''s3cret'')
     = valid_with (js ''u1'') (js ''2030-01-01T00:00:00.000Z'') (js ''basic'') (js ''n1'')"
proof -
  let ?i = "js ''u1''" and ?e = "js ''2030-01-01T00:00:00.000Z''" and ?p = "js ''basic''"
    and ?n = "js ''n1''" and ?s = "js ''s3cret''"
  let ?sg = "generateSignature (payload_text ?i ?e ?p ?n) ?s"
  note decoded = created_decodes [OF sample_fields(1,3,5,7), of ?s]
  note parts = split_fullKey [OF sample_fields(2,4,6,8) signature_plain(1), of "payload_text ?i ?e ?p ?n" ?s]
  note lastParts = split_nonceAndSig [OF sample_fields(9) signature_plain(2), of "payload_text ?i ?e ?p ?n" ?s]
  from expiry_boundary [where D = Date_parse_sample and now = 1893456000000,
      OF decoded parts lastParts refl sample_fields(13)]
    expiry_boundary [where D = Date_parse_sample and now = 1893455999999,
      OF decoded parts lastParts refl sample_fields(13)]
  show ?thesis by simp
qed

section \<open>The token codec: text that is no encoding\<close>

text \<open>
  C5. A key that is not validly encoded should be answered \<open>Key decoding failed\<close>, the
  answer of the \<open>catch\<close>. The decoder of the runtime never throws, so no key gets that
  answer; the key \<open>!!!!\<close>, which has no character of the alphabet, decodes to the empty
  text and is answered \<open>Invalid payload format\<close>.
\<close>

theorem malformed_encoding_not_reported:
  "verifyActivationKey D now key s \<noteq> invalid ''Key decoding failed'' \<and>
   \<not> is_base64url (js ''!!!!'') \<and>
   verifyActivationKey D now (js ''!!!!'') s = invalid ''Invalid payload format''"
proof -
  have "verifyActivationKey D now key s \<noteq> invalid ''Key decoding failed''"
    by (auto simp: verifyActivationKey_def base64UrlDecode_def Let_def invalid_eq
          valid_with_not_invalid split: option.splits)
  moreover have "\<not> is_base64url (js ''!!!!'')"
    by (simp add: is_base64url_def url_alphabet_def low_byte_def unbase64_def js_def)
  ultimately show ?thesis
    by (simp add: verify_samples)
qed

section \<open>The token codec: creating a key\<close>

text \<open>
  C6, as amended. \<open>createActivationKey\<close> checks nothing and has no error: for well-formed
  fields it returns the encoding of the payload, a dot and the signature, also when a field
  contains the delimiter. The key it returns then is rejected by \<open>verifyActivationKey\<close>
  with \<open>Invalid payload format\<close>, under every secret.
\<close>

theorem create_never_fails:
  assumes "well_formed i" "well_formed e" "well_formed p" "well_formed n"
    and "PIPE \<in> set i \<union> set e \<union> set p \<union> set n"
  shows "base64UrlDecode (createActivationKey i e p n s)
           = Inr (payload_text i e p n @ DOT # generateSignature (payload_text i e p n) s) \<and>
         verifyActivationKey D now (createActivationKey i e p n s) s'
           = invalid ''Invalid payload format''"
  using created_decodes [OF assms(1-4)] verify_delimiter_in_field [OF assms] by simp

theorem create_never_fails_witness:
  "base64UrlDecode
     (createActivationKey (js ''a|b'') (js ''2030-01-01T00:00:00.000Z'') (js ''basic'') (js ''n1'')
        (js ''s3cret''))
     = Inr (payload_text (js ''a|b'') (js ''2030-01-01T00:00:00.000Z'') (js ''basic'') (js ''n1'')
            @ DOT # generateSignature
                (payload_text (js ''a|b'') (js ''2030-01-01T00:00:00.000Z'') (js ''basic'') (js ''n1''))
                (js ''s3cret'')) \<and>
   verifyActivationKey Date_parse_sample 1700000000000
     (createActivationKey (js ''a|b'') (js ''2030-01-01T00:00:00.000Z'') (js ''basic'') (js ''n1'')
        (js ''s3cret''))
     (js ''s3cret'')
     = invalid ''Invalid payload format''"
  by (rule create_never_fails) (simp_all add: sample_fields delimiter_fields)

text \<open>
  The claim as stated has \<open>createActivationKey\<close> fail on the identifier \<open>a|b\<close>. It
  returns a key, which decodes to the five-field text and its signature.
\<close>

theorem create_never_fails_counterexample:
  "PIPE \<in> set (js ''a|b'') \<and>
   base64UrlDecode
     (createActivationKey (js ''a|b'') (js ''2030-01-01T00:00:00.000Z'') (js ''basic'') (js ''n1'')
        (js ''s3cret''))
     = Inr (js ''a|b|2030-01-01T00:00:00.000Z|basic|n1.''
            @ generateSignature (js ''a|b|2030-01-01T00:00:00.000Z|basic|n1'') (js ''s3cret''))"
proof -
  have "payload_text (js ''a|b'') (js ''2030-01-01T00:00:00.000Z'') (js ''basic'') (js ''n1'')
          = js ''a|b|2030-01-01T00:00:00.000Z|basic|n1''"
    by (simp add: payload_text_def js_def)
  moreover have "js ''a|b|2030-01-01T00:00:00.000Z|basic|n1.''
                   = js ''a|b|2030-01-01T00:00:00.000Z|basic|n1'' @ [DOT]"
    by (simp add: js_def)
  ultimately show ?thesis
    using created_decodes [OF delimiter_fields(1) sample_fields(3,5,7), of "js ''s3cret''"]
    by (simp add: delimiter_fields)
qed

section \<open>The session registry: liveness check\<close>

text \<open>
  C7. \<open>isActive\<close> with lazy expiry. When no session is stored under the identifier the
  answer is false and nothing changes. When the stored session's expiry is at or before now,
  the answer is false and the entry is deleted: \<open>getSession\<close> for the same identifier then
  returns absent, and the other identifiers keep their sessions. When the expiry is strictly
  after now the answer is true and nothing changes.
\<close>

theorem isActive_lazy_expiry:
  "(getSession ident svc = None \<longrightarrow> isActive D now ident svc = (False, svc)) \<and>
   (\<forall>s t. getSession ident svc = Some s \<and> D (session_expiry s) = Some t \<and> t \<le> now \<longrightarrow>
      fst (isActive D now ident svc) = False \<and>
      getSession ident (snd (isActive D now ident svc)) = None \<and>
      (\<forall>k. k \<noteq> ident \<longrightarrow> getSession k (snd (isActive D now ident svc)) = getSession k svc)) \<and>
   (\<forall>s t. getSession ident svc = Some s \<and> D (session_expiry s) = Some t \<and> now < t \<longrightarrow>
      isActive D now ident svc = (True, svc))"
  by (auto simp: isActive_def getSession_def Date_le_def delete_conv')

text \<open>
  The three cases on the sample registry, at an instant in 2023: \<open>u3\<close> is absent, \<open>u1\<close>
  has expired, \<open>u2\<close> is live.
\<close>

theorem isActive_lazy_expiry_witness:
  "isActive Date_parse_sample 1700000000000 (js ''u3'') sample_sessions = (False, sample_sessions) \<and>
   fst (isActive Date_parse_sample 1700000000000 (js ''u1'') sample_sessions) = False \<and>
   getSession (js ''u1'')
     (snd (isActive Date_parse_sample 1700000000000 (js ''u1'') sample_sessions)) = None \<and>
   getSession (js ''u2'')
     (snd (isActive Date_parse_sample 1700000000000 (js ''u1'') sample_sessions))
     = getSession (js ''u2'') sample_sessions \<and>
   isActive Date_parse_sample 1700000000000 (js ''u2'') sample_sessions = (True, sample_sessions)"
proof -
  let ?now = "1700000000000 :: int"
  have distinct: "js ''u2'' \<noteq> js ''u1''"
    by (simp add: js_def)
  have absent: "getSession (js ''u3'') sample_sessions = None"
    by (simp add: getSession_def sample_sessions_def js_def)
  have old: "getSession (js ''u1'') sample_sessions = Some (snd (hd (activeSessions sample_sessions)))"
    by (simp add: getSession_def sample_sessions_def)
  have old_t:
    "Date_parse_sample (session_expiry (snd (hd (activeSessions sample_sessions))))
       = Some 1577836800000"
    by (simp add: sample_sessions_def Date_parse_sample_def js_def)
  have live: "getSession (js ''u2'') sample_sessions = Some (snd (activeSessions sample_sessions ! 1))"
    by (simp add: getSession_def sample_sessions_def js_def)
  have live_t:
    "Date_parse_sample (session_expiry (snd (activeSessions sample_sessions ! 1)))
       = Some 1893456000000"
    by (simp add: sample_sessions_def Date_parse_sample_def js_def)
  from isActive_lazy_expiry [of "js ''u3''" sample_sessions Date_parse_sample ?now] absent
  have 1: "isActive Date_parse_sample ?now (js ''u3'') sample_sessions = (False, sample_sessions)"
    by blast
  from isActive_lazy_expiry [of "js ''u1''" sample_sessions Date_parse_sample ?now] old old_t
  have 2:
    "fst (isActive Date_parse_sample ?now (js ''u1'') sample_sessions) = False \<and>
     getSession (js ''u1'') (snd (isActive Date_parse_sample ?now (js ''u1'') sample_sessions)) = None \<and>
     (\<forall>k. k \<noteq> js ''u1'' \<longrightarrow>
        getSession k (snd (isActive Date_parse_sample ?now (js ''u1'') sample_sessions))
          = getSession k sample_sessions)"
    by fastforce
  from isActive_lazy_expiry [of "js ''u2''" sample_sessions Date_parse_sample ?now] live live_t
  have 3: "isActive Date_parse_sample ?now (js ''u2'') sample_sessions = (True, sample_sessions)"
    by fastforce
  from 1 2 3 distinct show ?thesis by metis
qed

section \<open>The session registry: activation\<close>

text \<open>
  C8. When the verification of the key is not valid, \<open>activate\<close> returns the rejected
  outcome with the reason of the verification and the registry is unchanged. When the
  verification is valid, \<open>activate\<close> returns the accepted outcome with the verified
  identifier, plan and expiry, and stores the session under that identifier, in place of
  any session that was there; the sessions of the other identifiers and the secret are
  unchanged.
\<close>

theorem activate_outcome:
  "(\<not> valid (verifyActivationKey D now key (secret svc)) \<longrightarrow>
      activate D now now' key svc
        = (\<lparr>ok = False, out_identifier = None, out_plan = None, out_expiry = None,
            out_reason = reason (verifyActivationKey D now key (secret svc))\<rparr>, svc)) \<and>
   (\<forall>i e p n. verifyActivationKey D now key (secret svc) = valid_with i e p n \<longrightarrow>
      fst (activate D now now' key svc)
        = \<lparr>ok = True, out_identifier = Some i, out_plan = Some p, out_expiry = Some e,
           out_reason = None\<rparr> \<and>
      getSession i (snd (activate D now now' key svc))
        = Some \<lparr>session_identifier = i, session_plan = p, session_expiry = e,
                 activatedAt = now'\<rparr> \<and>
      (\<forall>k. k \<noteq> i \<longrightarrow> getSession k (snd (activate D now now' key svc)) = getSession k svc) \<and>
      secret (snd (activate D now now' key svc)) = secret svc)"
  by (auto simp: activate_def Let_def valid_with_def getSession_def update_conv'
      split: bool.splits option.splits)

text \<open>
  On the sample registry: the key \<open>!!!!\<close> is rejected, and a key for \<open>u1\<close> replaces the
  session of \<open>u1\<close> that expired in 2020.
\<close>

theorem activate_outcome_witness:
  "activate Date_parse_sample 1700000000000 1700000000001 (js ''!!!!'') sample_sessions
     = (\<lparr>ok = False, out_identifier = None, out_plan = None, out_expiry = None,
         out_reason = Some ''Invalid payload format''\<rparr>, sample_sessions) \<and>
   fst (activate Date_parse_sample 1700000000000 1700000000001
          (createActivationKey (js ''u1'') (js ''2030-01-01T00:00:00.000Z'') (js ''premium'')
             (js ''n1'') (js ''s3cret''))
          sample_sessions)
     = \<lparr>ok = True, out_identifier = Some (js ''u1''), out_plan = Some (js ''premium''),
        out_expiry = Some (js ''2030-01-01T00:00:00.000Z''), out_reason = None\<rparr> \<and>
   getSession (js ''u1'')
     (snd (activate Date_parse_sample 1700000000000 1700000000001
             (createActivationKey (js ''u1'') (js ''2030-01-01T00:00:00.000Z'') (js ''premium'')
                (js ''n1'') (js ''s3cret''))
             sample_sessions))
     = Some \<lparr>session_identifier = js ''u1'', session_plan = js ''premium'',
              session_expiry = js ''2030-01-01T00:00:00.000Z'', activatedAt = 1700000000001\<rparr>"
proof -
  have s: "secret sample_sessions = js ''s3cret''"
    by (simp add: sample_sessions_def)
  have rejected: "\<not> valid (verifyActivationKey Date_parse_sample 1700000000000 (js ''!!!!'')
                           (secret sample_sessions))"
    "reason (verifyActivationKey Date_parse_sample 1700000000000 (js ''!!!!'')
               (secret sample_sessions)) = Some ''Invalid payload format''"
    by (simp_all add: verify_samples invalid_def)
  from activate_outcome [of Date_parse_sample 1700000000000 "js ''!!!!''" sample_sessions
      1700000000001] rejected
  have 1: "activate Date_parse_sample 1700000000000 1700000000001 (js ''!!!!'') sample_sessions
     = (\<lparr>ok = False, out_identifier = None, out_plan = None, out_expiry = None,
         out_reason = Some ''Invalid payload format''\<rparr>, sample_sessions)"
    by simp
  from activate_outcome [of Date_parse_sample 1700000000000
      "createActivationKey (js ''u1'') (js ''2030-01-01T00:00:00.000Z'') (js ''premium'')
         (js ''n1'') (js ''s3cret'')" sample_sessions 1700000000001]
    sample_key_valid
  show ?thesis
    unfolding s using 1 by blast
qed

section \<open>The token codec: a result for every key\<close>

text \<open>
  C9. For every key and every secret, \<open>verifyActivationKey\<close> returns a result: valid with
  four fields, or invalid with one of the six reasons. What the decoding could throw is
  caught and becomes a reason.
\<close>

theorem verify_total:
  "(\<exists>i e p n. verifyActivationKey D now key s = valid_with i e p n) \<or>
   verifyActivationKey D now key s \<in> set (map invalid invalid_reasons)"
  by (auto simp: verifyActivationKey_def invalid_reasons_def Let_def
      split: sum.splits option.splits)

section \<open>The session registry: keys\<close>

lemma clean_loop_subset: "set (clean_loop D now es m) \<subseteq> set m"
proof (induction es arbitrary: m)
  case Nil
  then show ?case by simp
next
  case (Cons e es)
  obtain k s where e: "e = (k, s)" by (cases e)
  have "set (AList.delete k m) \<subseteq> set m" by (auto simp: AList.delete_eq)
  with Cons.IH show ?case unfolding e by (simp, blast)
qed

lemma set_update_cases:
  "x \<in> set (AList.update k v al) \<Longrightarrow> x = (k, v) \<or> x \<in> set al"
  by (induction al) (auto split: if_splits)

lemma reachable_keyed: "reachable svc \<Longrightarrow> keyed svc"
proof (induction rule: reachable.induct)
  case (r_new s)
  show ?case by (simp add: keyed_def new_ActivationService_def)
next
  case (r_activate svc D now now' key)
  then show ?case
    by (auto simp: keyed_def activate_def Let_def list_all_iff
        split: bool.splits option.splits dest!: set_update_cases)
next
  case (r_isActive svc D now ident)
  then show ?case
    by (auto simp: keyed_def isActive_def list_all_iff AList.delete_eq split: option.splits)
next
  case (r_clean svc D now)
  then show ?case
    using clean_loop_subset [of D now "activeSessions svc" "activeSessions svc"]
    by (auto simp: keyed_def cleanExpiredSessions_def list_all_iff)
qed

text \<open>
  C10. In every state of the registry that the constructor and any calls of \<open>activate\<close>,
  \<open>isActive\<close> and \<open>cleanExpiredSessions\<close> lead to (\<open>getSession\<close> changes nothing), every
  session is stored under its own identifier.
\<close>

theorem registry_key_consistency:
  assumes "reachable svc"
  shows "(\<forall>(k, s) \<in> set (activeSessions svc). session_identifier s = k) \<and>
         (\<forall>k s. getSession k svc = Some s \<longrightarrow> session_identifier s = k)"
proof -
  from reachable_keyed [OF assms]
  have all: "\<forall>(k, s) \<in> set (activeSessions svc). session_identifier s = k"
    by (simp add: keyed_def list_all_iff)
  then have "\<forall>k s. getSession k svc = Some s \<longrightarrow> session_identifier s = k"
    by (auto simp: getSession_def dest!: map_of_SomeD)
  with all show ?thesis by blast
qed

text \<open>The registry after one activation of a key for \<open>u1\<close>.\<close>

theorem registry_key_consistency_witness:
  "reachable
     (snd (activate Date_parse_sample 1700000000000 1700000000001
             (createActivationKey (js ''u1'') (js ''2030-01-01T00:00:00.000Z'') (js ''premium'')
                (js ''n1'') (js ''s3cret''))
             (new_ActivationService (js ''s3cret'')))) \<and>
   getSession (js ''u1'')
     (snd (activate Date_parse_sample 1700000000000 1700000000001
             (createActivationKey (js ''u1'') (js ''2030-01-01T00:00:00.000Z'') (js ''premium'')
                (js ''n1'') (js ''s3cret''))
             (new_ActivationService (js ''s3cret''))))
     = Some \<lparr>session_identifier = js ''u1'', session_plan = js ''premium'',
              session_expiry = js ''2030-01-01T00:00:00.000Z'', activatedAt = 1700000000001\<rparr> \<and>
   session_identifier
     (the (getSession (js ''u1'')
        (snd (activate Date_parse_sample 1700000000000 1700000000001
                (createActivationKey (js ''u1'') (js ''2030-01-01T00:00:00.000Z'') (js ''premium'')
                   (js ''n1'') (js ''s3cret''))
                (new_ActivationService (js ''s3cret''))))))
     = js ''u1''"
proof -
  let ?svc = "snd (activate Date_parse_sample 1700000000000 1700000000001
             (createActivationKey (js ''u1'') (js ''2030-01-01T00:00:00.000Z'') (js ''premium'')
                (js ''n1'') (js ''s3cret''))
             (new_ActivationService (js ''s3cret'')))"
  have r: "reachable ?svc"
    by (intro reachable.intros)
  have stored: "getSession (js ''u1'') ?svc
     = Some \<lparr>session_identifier = js ''u1'', session_plan = js ''premium'',
              session_expiry = js ''2030-01-01T00:00:00.000Z'', activatedAt = 1700000000001\<rparr>"
    by (simp add: activate_def new_ActivationService_def sample_key_valid valid_with_def
          getSession_def)
  from registry_key_consistency [OF r] stored
  have "session_identifier (the (getSession (js ''u1'') ?svc)) = js ''u1''"
    by (metis option.sel)
  with r stored show ?thesis
    by blast
qed

end
